theory Spec2Isabelle
  imports Main "HOL-Library.AList"
begin

section \<open>Data model of crawlbase.go\<close>

text \<open>
  Go strings are byte sequences; they are modelled as \<^typ>\<open>string\<close>. A Go \<^verbatim>\<open>error\<close> is a
  value with a message. Three kinds occur in the crawler: the package variable
  \<^verbatim>\<open>ErrorCheckRedirect = errors.New("dont redirect")\<close>, a \<^verbatim>\<open>*url.Error\<close> wrapping an inner
  error (the http client wraps every failure of \<^verbatim>\<open>Do\<close> in one), and any other error, known
  by its message only.
\<close>

datatype error =
    ErrorCheckRedirect
  | UrlError string error
  | OtherError string

text \<open>\<^verbatim>\<open>err.Error()\<close>: a \<^verbatim>\<open>*url.Error\<close> carries the message the library formatted for it.\<close>

fun error_Error :: "error \<Rightarrow> string" where
  "error_Error ErrorCheckRedirect = ''dont redirect''"
| "error_Error (UrlError msg inner) = msg"
| "error_Error (OtherError msg) = msg"

text \<open>\<^verbatim>\<open>url.URL\<close>: the fields the crawler reads, and those a reference resolution moves.\<close>

record URL =
  Scheme :: string
  Host :: string
  Path :: string
  RawQuery :: string
  Fragment :: string

text \<open>
  \<^verbatim>\<open>http.Header\<close> is a \<^verbatim>\<open>map[string][]string\<close>. The crawler ranges over it, so it is an
  association list with one entry per key; \<^verbatim>\<open>Get\<close> is the first value of the key, or the
  empty string.
\<close>

type_synonym Header = "(string \<times> string list) list"

definition Header_Get :: "Header \<Rightarrow> string \<Rightarrow> string" where
  "Header_Get h key = (case map_of h key of Some (v # vs) \<Rightarrow> v | _ \<Rightarrow> [])"

definition Header_Set :: "Header \<Rightarrow> string \<Rightarrow> string \<Rightarrow> Header" where
  "Header_Set h key v = AList.update key [v] h"

record Cookie =
  cookie_Name :: string
  cookie_Value :: string
  cookie_Domain :: string
  cookie_Httponly :: bool

record FormInput =
  Name :: string
  Type :: string
  Value :: string

record Form =
  form_Url :: string
  Method :: string
  Inputs :: "FormInput list"

record Ressource =
  Url :: string
  res_Type :: string
  Rel :: string
  Tag :: string

record JSInfo =
  Source :: string
  js_Value :: string

record ResponseInfo =
  Hrefs :: "string list"
  Forms :: "Form list"
  Ressources :: "Ressource list"
  JSInfo :: "JSInfo list"
  Requests :: "Ressource list"

record PageResponse =
  Header :: Header
  Proto :: string
  StatusCode :: int
  ContentLength :: int
  ContentMIME :: string
  Cookies :: "Cookie list"

record PageRequest =
  preq_Header :: Header
  preq_Proto :: string
  preq_ContentLength :: int
  preq_Cookies :: "Cookie list"

text \<open>
  \<^verbatim>\<open>Page.Response\<close> and \<^verbatim>\<open>Page.Request\<close> are pointers: \<open>None\<close> is \<^verbatim>\<open>nil\<close>.
\<close>

record Page =
  URL :: string
  CrawlTime :: int
  RespDuration :: int
  CrawlerId :: int
  Uid :: string
  Response :: "PageResponse option"
  Request :: "PageRequest option"
  RespInfo :: ResponseInfo
  Error :: string
  ResponseBody :: string
  RequestBody :: string

text \<open>The zero values \<^verbatim>\<open>ResponseInfo{}\<close>, \<^verbatim>\<open>PageResponse{}\<close>, \<^verbatim>\<open>PageRequest{}\<close>, \<^verbatim>\<open>Page{}\<close>.\<close>

definition ResponseInfo_zero :: ResponseInfo where
  "ResponseInfo_zero = \<lparr>Hrefs = [], Forms = [], Ressources = [], JSInfo = [], Requests = []\<rparr>"

definition PageResponse_zero :: PageResponse where
  "PageResponse_zero =
     \<lparr>Header = [], Proto = [], StatusCode = 0, ContentLength = 0, ContentMIME = [], Cookies = []\<rparr>"

definition PageRequest_zero :: PageRequest where
  "PageRequest_zero =
     \<lparr>preq_Header = [], preq_Proto = [], preq_ContentLength = 0, preq_Cookies = []\<rparr>"

definition Page_zero :: Page where
  "Page_zero =
     \<lparr>URL = [], CrawlTime = 0, RespDuration = 0, CrawlerId = 0, Uid = [], Response = None,
      Request = None, RespInfo = ResponseInfo_zero, Error = [], ResponseBody = [],
      RequestBody = []\<rparr>"

text \<open>
  The crawler. \<^verbatim>\<open>Links\<close> is the frontier, a \<^verbatim>\<open>map[string]bool\<close> from URL to its visited
  flag. The two hooks are function values that may be \<^verbatim>\<open>nil\<close>; each returns its value
  together with an error that may be \<^verbatim>\<open>nil\<close>. The \<^verbatim>\<open>http.Client\<close> is not a field here: what
  it does is part of the environment the fetching functions take.
\<close>

record Crawler =
  cw_Header :: Header
  IncludeHiddenLinks :: bool
  WaitBetweenRequests :: int
  Links :: "string \<rightharpoonup> bool"
  BeforeCrawlFn :: "(string \<Rightarrow> string \<times> error option) option"
  AfterCrawlFn :: "(Page \<Rightarrow> error option \<Rightarrow> string list \<times> error option) option"
  ValidSchemes :: "string list"
  PageCount :: nat
  StorageFolder :: string
  ScopeToDomain :: bool

section \<open>The frontier\<close>

definition IsCrawled :: "Crawler \<Rightarrow> string \<Rightarrow> bool" where
  "IsCrawled cw url = (case Links cw url of Some val \<Rightarrow> val = True | None \<Rightarrow> False)"

fun AddCrawledLinks :: "string list \<Rightarrow> Crawler \<Rightarrow> Crawler" where
  "AddCrawledLinks [] cw = cw"
| "AddCrawledLinks (newLink # links) cw =
     AddCrawledLinks links (cw\<lparr>Links := (Links cw)(newLink \<mapsto> True)\<rparr>)"

fun AddAllLinks :: "string list \<Rightarrow> Crawler \<Rightarrow> Crawler" where
  "AddAllLinks [] cw = cw"
| "AddAllLinks (newLink # links) cw =
     (let isCrawled = IsCrawled cw newLink
      in AddAllLinks links (cw\<lparr>Links := (Links cw)(newLink \<mapsto> isCrawled)\<rparr>))"

section \<open>The libraries the crawler calls\<close>

text \<open>
  A parsed HTML document (goquery over \<^verbatim>\<open>golang.org/x/net/html\<close>) is a forest of nodes;
  an element has a tag name, its attributes in source order and its children.
\<close>

datatype Node =
    Element string "(string \<times> string) list" "Node list"
  | Text string

type_synonym Document = "Node list"

text \<open>The parts of \<^verbatim>\<open>http.Request\<close> and \<^verbatim>\<open>http.Response\<close> the crawler touches. The body of
  a response is what \<^verbatim>\<open>ioutil.ReadAll(res.Body)\<close> returns: the bytes, or a read error.\<close>

record Request =
  req_Method :: string
  req_URL :: URL
  req_Header :: Header
  req_Proto :: string
  req_ContentLength :: int

record Response =
  resp_StatusCode :: int
  resp_Header :: Header
  resp_Proto :: string
  resp_Body :: "error + string"

text \<open>
  The pure library functions are parameters of the model, gathered in one record:
  \<^verbatim>\<open>url.Parse\<close>, \<^verbatim>\<open>(*URL).ResolveReference\<close> (base first), \<^verbatim>\<open>(*URL).String\<close>,
  \<^verbatim>\<open>goquery.NewDocumentFromReader\<close> on a byte slice, \<^verbatim>\<open>http.NewRequest\<close> (method, then url,
  with a nil body), the hex-encoded SHA-1 of \<^verbatim>\<open>ToHash\<close>, and the floating-point
  conversion \<^verbatim>\<open>int(d.Seconds() * 1000)\<close> of a duration given in nanoseconds.
\<close>

record golib =
  url_Parse :: "string \<Rightarrow> error + URL"
  ResolveReference :: "URL \<Rightarrow> URL \<Rightarrow> URL"
  URL_String :: "URL \<Rightarrow> string"
  NewDocumentFromReader :: "string \<Rightarrow> error + Document"
  NewRequest :: "string \<Rightarrow> string \<Rightarrow> error + Request"
  sha1_hex :: "string \<Rightarrow> string"
  Seconds_times_1000 :: "int \<Rightarrow> int"
  json_Unmarshal :: "string \<Rightarrow> error + Page"
  json_MarshalIndent :: "Page \<Rightarrow> error + string"
  path_Join :: "string \<Rightarrow> string \<Rightarrow> string"
  FormatInt :: "int \<Rightarrow> string"

text \<open>
  What the crawler does to the world outside it (the network, the disk, the clock, the
  runtime's choice of a map iteration order) is state passing over a world \<open>'w\<close>: every
  operation takes the world and returns its result with the world after it.
  \<^item> \<open>time_Now\<close>: \<^verbatim>\<open>time.Now()\<close>, in nanoseconds since the epoch;
  \<^item> \<open>Client_Do\<close>: \<^verbatim>\<open>c.Client.Do(req)\<close>, a response or \<^verbatim>\<open>nil\<close>, and an error or \<^verbatim>\<open>nil\<close>;
  \<^item> \<open>ReadDir\<close>: the file names of \<^verbatim>\<open>ioutil.ReadDir\<close>; \<open>ReadFile\<close>, \<open>WriteFile\<close>
    (path, then content), \<open>Mkdir\<close>: the functions of \<^verbatim>\<open>ioutil\<close> and \<^verbatim>\<open>os\<close>;
  \<^item> \<open>Stat_IsNotExist\<close>: whether \<^verbatim>\<open>os.Stat\<close> fails with an error for which \<^verbatim>\<open>os.IsNotExist\<close>
    holds;
  \<^item> \<open>range_order\<close>: the order in which one \<^verbatim>\<open>range\<close> over a \<^verbatim>\<open>map[string]bool\<close> visits
    its keys.
\<close>

record 'w sys =
  time_Now :: "'w \<Rightarrow> int \<times> 'w"
  Client_Do :: "Request \<Rightarrow> 'w \<Rightarrow> (Response option \<times> error option) \<times> 'w"
  ReadDir :: "string \<Rightarrow> 'w \<Rightarrow> (error + string list) \<times> 'w"
  ReadFile :: "string \<Rightarrow> 'w \<Rightarrow> (error + string) \<times> 'w"
  WriteFile :: "string \<Rightarrow> string \<Rightarrow> 'w \<Rightarrow> error option \<times> 'w"
  Mkdir :: "string \<Rightarrow> 'w \<Rightarrow> error option \<times> 'w"
  Stat_IsNotExist :: "string \<Rightarrow> 'w \<Rightarrow> bool \<times> 'w"
  range_order :: "(string \<rightharpoonup> bool) \<Rightarrow> 'w \<Rightarrow> string list \<times> 'w"

text \<open>
  How a call ends: it returns, or the process exits (\<^verbatim>\<open>log.Fatal\<close>), or the runtime panics
  (a nil dereference, an index out of range).
\<close>

datatype 'a exec = Returns 'a | Exits | Panics

text \<open>
  \<^verbatim>\<open>strings.Split(s, sep)\<close> for a separator of one byte, as at every call site of the
  crawler: the pieces between the separators, one more than there are separators, so
  never an empty list.
\<close>

fun Split :: "string \<Rightarrow> char \<Rightarrow> string list" where
  "Split [] sep = [[]]"
| "Split (c # cs) sep =
     (if c = sep then [] # Split cs sep
      else (case Split cs sep of w # ws \<Rightarrow> (c # w) # ws | [] \<Rightarrow> [[c]]))"

text \<open>\<^verbatim>\<open>strings.TrimSpace\<close> on ASCII input: the white space of Go's \<^verbatim>\<open>unicode.IsSpace\<close> below
  \<^verbatim>\<open>0x80\<close> is tab, line feed, vertical tab, form feed, carriage return and space.\<close>

definition isSpace :: "char \<Rightarrow> bool" where
  "isSpace c = (c \<in> set [CHR 0x09, CHR 0x0A, CHR 0x0B, CHR 0x0C, CHR 0x0D, CHR '' ''])"

definition TrimSpace :: "string \<Rightarrow> string" where
  "TrimSpace s = rev (dropWhile isSpace (rev (dropWhile isSpace s)))"

definition HasSuffix :: "string \<Rightarrow> string \<Rightarrow> bool" where
  "HasSuffix s suffix =
     (length s \<ge> length suffix \<and> drop (length s - length suffix) s = suffix)"

text \<open>\<^verbatim>\<open>strings.Replace(s, old, new, 1)\<close> for a non-empty \<open>old\<close>: the first occurrence.\<close>

fun Replace_first :: "string \<Rightarrow> string \<Rightarrow> string \<Rightarrow> string" where
  "Replace_first [] old new = []"
| "Replace_first (c # cs) old new =
     (if take (length old) (c # cs) = old then new @ drop (length old) (c # cs)
      else c # Replace_first cs old new)"

section \<open>Construction\<close>

definition headerUserAgentChrome :: string where
  "headerUserAgentChrome =
     ''Mozilla/5.0 (Windows NT 6.3; WOW64) AppleWebKit/537.36 (KHTML, like Gecko) Chrome/47.0.2526.106 Safari/537.36''"

definition NewCrawler :: Crawler where
  "NewCrawler =
     \<lparr>cw_Header = Header_Set [] ''User-Agent'' headerUserAgentChrome,
      IncludeHiddenLinks = False,
      WaitBetweenRequests = 1 * 1000,
      Links = Map.empty,
      BeforeCrawlFn = None,
      AfterCrawlFn = None,
      ValidSchemes = [''http'', ''https''],
      PageCount = 0,
      StorageFolder = ''./storage'',
      ScopeToDomain = False\<rparr>"

section \<open>Domain scoping\<close>

definition GetDomain :: "string \<Rightarrow> string" where
  "GetDomain host =
     (let splitted = Split host CHR ''.'';
          lenSplitted = length splitted
      in if lenSplitted \<ge> 2
         then splitted ! (lenSplitted - 2) @ ''.'' @ splitted ! (lenSplitted - 1)
         else if lenSplitted \<ge> 1 then splitted ! 0
         else host)"

definition IsSameDomain :: "URL \<Rightarrow> URL \<Rightarrow> bool" where
  "IsSameDomain baseUrl testUrl = (GetDomain (Host baseUrl) = GetDomain (Host testUrl))"

fun AddLinksMatchingDomain :: "golib \<Rightarrow> string list \<Rightarrow> URL \<Rightarrow> Crawler \<Rightarrow> Crawler" where
  "AddLinksMatchingDomain lib [] startUrl cw = cw"
| "AddLinksMatchingDomain lib (newLink # links) startUrl cw =
     (case url_Parse lib newLink of
        Inl err \<Rightarrow> AddLinksMatchingDomain lib links startUrl cw
      | Inr newLinkUrl \<Rightarrow>
          if IsSameDomain startUrl newLinkUrl
          then AddLinksMatchingDomain lib links startUrl (AddAllLinks [newLink] cw)
          else AddLinksMatchingDomain lib links startUrl cw)"

text \<open>
  \<^verbatim>\<open>RemoveLinksNotSameHost\<close> ranges over the map and deletes from it while ranging. Go
  visits each key once, in an order of its own choosing; \<open>keys\<close> is that order, an
  enumeration of the keys of the map. The body deletes no key but the one it is at, so a
  key is still present when the loop reaches it.
\<close>

fun RemoveLinks_range :: "golib \<Rightarrow> URL \<Rightarrow> string list \<Rightarrow> Crawler \<Rightarrow> Crawler" where
  "RemoveLinks_range lib baseUrl [] cw = cw"
| "RemoveLinks_range lib baseUrl (k # keys) cw =
     (case url_Parse lib k of
        Inl err \<Rightarrow> RemoveLinks_range lib baseUrl keys (cw\<lparr>Links := (Links cw)(k := None)\<rparr>)
      | Inr pUrl \<Rightarrow>
          if \<not> IsSameDomain baseUrl pUrl
          then RemoveLinks_range lib baseUrl keys (cw\<lparr>Links := (Links cw)(k := None)\<rparr>)
          else RemoveLinks_range lib baseUrl keys cw)"

definition RemoveLinksNotSameHost :: "golib \<Rightarrow> string list \<Rightarrow> URL \<Rightarrow> Crawler \<Rightarrow> Crawler" where
  "RemoveLinksNotSameHost lib keys baseUrl cw = RemoveLinks_range lib baseUrl keys cw"

text \<open>
  The spec's wording of the registrable domain, to compare \<open>GetDomain\<close> with: the last
  two dot-separated labels of the host, or the whole host if there are fewer than two.
\<close>

definition registrable_domain :: "string \<Rightarrow> string" where
  "registrable_domain host =
     (let labels = Split host CHR ''.''
      in if length labels < 2 then host
         else last (butlast labels) @ ''.'' @ last labels)"

section \<open>The HTML extractor\<close>

text \<open>
  goquery: \<^verbatim>\<open>Find(tag)\<close> on a document selects the elements with that tag name in document
  order (an element before its descendants); on the selection of one element it selects
  among that element's descendants. \<^verbatim>\<open>Attr(name)\<close> is the value of the first attribute with
  that name, and whether there is one.
\<close>

fun matchAll :: "string \<Rightarrow> Node \<Rightarrow> Node list" where
  "matchAll sel (Element t as cs) =
     (if t = sel then [Element t as cs] else []) @ concat (map (matchAll sel) cs)"
| "matchAll sel (Text s) = []"

definition Find :: "Node list \<Rightarrow> string \<Rightarrow> Node list" where
  "Find nodes sel = concat (map (matchAll sel) nodes)"

fun children :: "Node \<Rightarrow> Node list" where
  "children (Element t as cs) = cs"
| "children (Text s) = []"

fun Attr :: "Node \<Rightarrow> string \<Rightarrow> string option" where
  "Attr (Element t as cs) name = map_of as name"
| "Attr (Text s) name = None"

definition ToAbsUrl :: "golib \<Rightarrow> URL \<Rightarrow> string \<Rightarrow> string" where
  "ToAbsUrl lib baseurl weburl =
     (case url_Parse lib weburl of
        Inl err \<Rightarrow> []
      | Inr relurl \<Rightarrow> URL_String lib (ResolveReference lib baseurl relurl))"

fun GetStylesCss_range :: "string list \<Rightarrow> (string \<rightharpoonup> string) \<Rightarrow> (string \<rightharpoonup> string)" where
  "GetStylesCss_range [] attrs = attrs"
| "GetStylesCss_range (k # splitted) attrs =
     (let kv = Split k CHR '':''
      in if length kv > 1
         then (let key = TrimSpace (kv ! 0); value = TrimSpace (kv ! 1)
               in GetStylesCss_range splitted (attrs(key \<mapsto> value)))
         else GetStylesCss_range splitted attrs)"

definition GetStylesCss :: "string \<Rightarrow> (string \<rightharpoonup> string)" where
  "GetStylesCss style = GetStylesCss_range (Split style CHR '';'') Map.empty"

definition IsVisibleCss :: "string \<Rightarrow> bool" where
  "IsVisibleCss style =
     (let styles = GetStylesCss style
      in if (case styles ''display'' of Some display \<Rightarrow> display = ''none'' | None \<Rightarrow> False)
         then False
         else if (case styles ''visibility'' of
                    Some visibilty \<Rightarrow> visibilty = ''hidden'' | None \<Rightarrow> False)
         then False
         else True)"

fun contains :: "string list \<Rightarrow> string \<Rightarrow> bool" where
  "contains [] e = False"
| "contains (a # s) e = (if a = e then True else contains s e)"

text \<open>The body of \<^verbatim>\<open>Each\<close> in \<^verbatim>\<open>GetHrefs\<close>, run over the selected anchors; \<open>hrefs\<close> is the
  slice the closure appends to.\<close>

fun GetHrefs_each :: "golib \<Rightarrow> URL \<Rightarrow> bool \<Rightarrow> Node list \<Rightarrow> string list \<Rightarrow> string list" where
  "GetHrefs_each lib baseUrl removeInvisibles [] hrefs = hrefs"
| "GetHrefs_each lib baseUrl removeInvisibles (s # rest) hrefs =
     (case Attr s ''href'' of
        None \<Rightarrow> GetHrefs_each lib baseUrl removeInvisibles rest hrefs
      | Some href \<Rightarrow>
          if removeInvisibles
             \<and> (case Attr s ''style'' of Some style \<Rightarrow> IsVisibleCss style | None \<Rightarrow> False)
          then GetHrefs_each lib baseUrl removeInvisibles rest hrefs
          else (let fullUrl = ToAbsUrl lib baseUrl href
                in if \<not> contains hrefs fullUrl
                   then GetHrefs_each lib baseUrl removeInvisibles rest (hrefs @ [fullUrl])
                   else GetHrefs_each lib baseUrl removeInvisibles rest hrefs))"

definition GetHrefs :: "golib \<Rightarrow> Document \<Rightarrow> URL \<Rightarrow> bool \<Rightarrow> string list" where
  "GetHrefs lib doc baseUrl removeInvisibles =
     GetHrefs_each lib baseUrl removeInvisibles (Find doc ''a'') []"

definition attr_or_empty :: "Node \<Rightarrow> string \<Rightarrow> string" where
  "attr_or_empty s name = (case Attr s name of Some v \<Rightarrow> v | None \<Rightarrow> [])"

definition abs_attr_or_empty :: "golib \<Rightarrow> URL \<Rightarrow> Node \<Rightarrow> string \<Rightarrow> string" where
  "abs_attr_or_empty lib baseUrl s name =
     (case Attr s name of Some href \<Rightarrow> ToAbsUrl lib baseUrl href | None \<Rightarrow> [])"

fun GetFormUrls_inputs :: "Node list \<Rightarrow> FormInput list \<Rightarrow> FormInput list" where
  "GetFormUrls_inputs [] inputs = inputs"
| "GetFormUrls_inputs (s # rest) inputs =
     GetFormUrls_inputs rest
       (inputs @ [\<lparr>Name = attr_or_empty s ''name'', Type = attr_or_empty s ''type'',
                   Value = attr_or_empty s ''value''\<rparr>])"

fun GetFormUrls_each :: "golib \<Rightarrow> URL \<Rightarrow> Node list \<Rightarrow> Form list \<Rightarrow> Form list" where
  "GetFormUrls_each lib baseUrl [] forms = forms"
| "GetFormUrls_each lib baseUrl (s # rest) forms =
     GetFormUrls_each lib baseUrl rest
       (forms @ [\<lparr>form_Url = abs_attr_or_empty lib baseUrl s ''action'',
                  Method = attr_or_empty s ''method'',
                  Inputs = GetFormUrls_inputs (Find (children s) ''input'') []\<rparr>])"

definition GetFormUrls :: "golib \<Rightarrow> Document \<Rightarrow> URL \<Rightarrow> Form list" where
  "GetFormUrls lib doc baseUrl = GetFormUrls_each lib baseUrl (Find doc ''form'') []"

text \<open>The four passes of \<^verbatim>\<open>GetRessources\<close>, each the body of one \<^verbatim>\<open>Each\<close> appending to the
  shared slice \<open>ressources\<close>. A \<^verbatim>\<open>return\<close> inside the closure leaves the element out.\<close>

fun GetRessources_link :: "golib \<Rightarrow> URL \<Rightarrow> Node list \<Rightarrow> Ressource list \<Rightarrow> Ressource list" where
  "GetRessources_link lib baseUrl [] ressources = ressources"
| "GetRessources_link lib baseUrl (s # rest) ressources =
     GetRessources_link lib baseUrl rest
       (ressources @ [\<lparr>Url = abs_attr_or_empty lib baseUrl s ''href'',
                       res_Type = attr_or_empty s ''type'',
                       Rel = attr_or_empty s ''rel'',
                       Tag = ''link''\<rparr>])"

fun GetRessources_img :: "golib \<Rightarrow> URL \<Rightarrow> Node list \<Rightarrow> Ressource list \<Rightarrow> Ressource list" where
  "GetRessources_img lib baseUrl [] ressources = ressources"
| "GetRessources_img lib baseUrl (s # rest) ressources =
     GetRessources_img lib baseUrl rest
       (ressources @ [\<lparr>Url = abs_attr_or_empty lib baseUrl s ''src'',
                       res_Type = [], Rel = [], Tag = ''img''\<rparr>])"

fun GetRessources_script :: "golib \<Rightarrow> URL \<Rightarrow> Node list \<Rightarrow> Ressource list \<Rightarrow> Ressource list" where
  "GetRessources_script lib baseUrl [] ressources = ressources"
| "GetRessources_script lib baseUrl (s # rest) ressources =
     (case Attr s ''src'' of
        Some href \<Rightarrow>
          GetRessources_script lib baseUrl rest
            (ressources @ [\<lparr>Url = ToAbsUrl lib baseUrl href,
                            res_Type = attr_or_empty s ''type'', Rel = [], Tag = ''script''\<rparr>])
      | None \<Rightarrow> GetRessources_script lib baseUrl rest ressources)"

fun GetRessources_style :: "golib \<Rightarrow> URL \<Rightarrow> Node list \<Rightarrow> Ressource list \<Rightarrow> Ressource list" where
  "GetRessources_style lib baseUrl [] ressources = ressources"
| "GetRessources_style lib baseUrl (s # rest) ressources =
     (case Attr s ''src'' of
        Some href \<Rightarrow>
          GetRessources_style lib baseUrl rest
            (ressources @ [\<lparr>Url = ToAbsUrl lib baseUrl href,
                            res_Type = attr_or_empty s ''type'', Rel = [], Tag = ''style''\<rparr>])
      | None \<Rightarrow> GetRessources_style lib baseUrl rest ressources)"

definition GetRessources :: "golib \<Rightarrow> Document \<Rightarrow> URL \<Rightarrow> Ressource list" where
  "GetRessources lib doc baseUrl =
     (let ressources = GetRessources_link lib baseUrl (Find doc ''link'') [];
          ressources = GetRessources_img lib baseUrl (Find doc ''img'') ressources;
          ressources = GetRessources_script lib baseUrl (Find doc ''script'') ressources
      in GetRessources_style lib baseUrl (Find doc ''style'') ressources)"

section \<open>Assembling a page\<close>

definition ToHash :: "golib \<Rightarrow> string \<Rightarrow> string" where
  "ToHash lib message = sha1_hex lib message"

definition GetContentMime :: "Header \<Rightarrow> string" where
  "GetContentMime header =
     (let contentMIME = Split (Header_Get header ''Content-Type'') CHR '';'' ! 0
      in if contentMIME = [] then ''text/html'' else contentMIME)"

fun ContainsString :: "string list \<Rightarrow> string \<Rightarrow> bool" where
  "ContainsString [] key = False"
| "ContainsString (x # arr) key = (if x = key then True else ContainsString arr key)"

definition PageFromData :: "golib \<Rightarrow> string \<Rightarrow> URL \<Rightarrow> bool \<Rightarrow> Page" where
  "PageFromData lib data url includeHiddenLinks =
     (let page = Page_zero\<lparr>ResponseBody := data\<rparr>;
          page =
            (case NewDocumentFromReader lib data of
               Inl err \<Rightarrow> page
             | Inr doc \<Rightarrow>
                 page\<lparr>RespInfo := (RespInfo page)
                        \<lparr>Hrefs := GetHrefs lib doc url (\<not> includeHiddenLinks),
                         Forms := GetFormUrls lib doc url,
                         Ressources := GetRessources lib doc url\<rparr>\<rparr>)
      in page\<lparr>Response := Some PageResponse_zero, Request := Some PageRequest_zero\<rparr>)"

text \<open>
  \<^verbatim>\<open>page.Response\<close> and \<^verbatim>\<open>page.Request\<close> are dereferenced to read and to write their
  fields; on a nil pointer that panics, which is \<open>None\<close> here.
\<close>

definition LocationFromPage :: "golib \<Rightarrow> Page \<Rightarrow> URL \<Rightarrow> (bool \<times> string) option" where
  "LocationFromPage lib page baseUrl =
     (case Response page of
        None \<Rightarrow> None
      | Some response \<Rightarrow>
          if StatusCode response \<ge> 300 \<and> StatusCode response < 308
          then (let loc = Header_Get (Header response) ''Location'';
                    loc = ToAbsUrl lib baseUrl loc
                in Some (True, loc))
          else Some (False, []))"

definition PageFromResponse_res :: "golib \<Rightarrow> Crawler \<Rightarrow> Request \<Rightarrow> Response \<Rightarrow> Page \<Rightarrow> Page option" where
  "PageFromResponse_res lib c req res page0 =
     (let page = (case resp_Body res of
                    Inr body \<Rightarrow> PageFromData lib body (req_URL req) (IncludeHiddenLinks c)
                  | Inl err \<Rightarrow> page0)
      in case Response page of
           None \<Rightarrow> None
         | Some response \<Rightarrow>
             (let page = page\<lparr>Response := Some (response
                           \<lparr>ContentMIME := GetContentMime (resp_Header res),
                            StatusCode := resp_StatusCode res,
                            Header := resp_Header res,
                            Proto := resp_Proto res\<rparr>)\<rparr>
              in case LocationFromPage lib page (req_URL req) of
                   None \<Rightarrow> None
                 | Some (isRedirect, location) \<Rightarrow>
                     if isRedirect
                     then (let hasLocation = ContainsString (Hrefs (RespInfo page)) location
                           in if \<not> hasLocation
                              then Some (page\<lparr>RespInfo := (RespInfo page)
                                     \<lparr>Hrefs := Hrefs (RespInfo page) @ [location]\<rparr>\<rparr>)
                              else Some page)
                     else Some page))"

text \<open>\<open>timeDur\<close> is in nanoseconds, like the clock.\<close>

definition PageFromResponse ::
    "golib \<Rightarrow> 'w sys \<Rightarrow> Crawler \<Rightarrow> Request \<Rightarrow> Response option \<Rightarrow> int \<Rightarrow> 'w \<Rightarrow> (Page \<times> 'w) option" where
  "PageFromResponse lib sys c req res timeDur w =
     (let page0 = Page_zero\<lparr>Response := Some PageResponse_zero, Request := Some PageRequest_zero\<rparr>
      in case (case res of
                 None \<Rightarrow> Some page0
               | Some r \<Rightarrow> PageFromResponse_res lib c req r page0) of
           None \<Rightarrow> None
         | Some page \<Rightarrow>
             (case time_Now sys w of
                (now, w) \<Rightarrow>
                  (let page = page\<lparr>CrawlTime := now div 1000000000\<rparr>;
                       page = page\<lparr>URL := URL_String lib (req_URL req)\<rparr>;
                       page = page\<lparr>Uid := ToHash lib (URL page)\<rparr>;
                       page = page\<lparr>RespDuration := Seconds_times_1000 lib timeDur\<rparr>
                   in case Request page of
                        None \<Rightarrow> None
                      | Some request \<Rightarrow>
                          Some (page\<lparr>Request := Some (request
                                  \<lparr>preq_Header := req_Header req,
                                   preq_Proto := req_Proto req,
                                   preq_ContentLength := req_ContentLength req\<rparr>)\<rparr>, w))))"

section \<open>Fetching a page\<close>

text \<open>
  The loop of \<^verbatim>\<open>GetPage\<close> that copies the crawler's headers into the request:
  \<^verbatim>\<open>req.Header.Set(k, v[0])\<close> panics on a key whose list of values is empty.
\<close>

fun GetPage_headers :: "Header \<Rightarrow> Request \<Rightarrow> Request option" where
  "GetPage_headers [] req = Some req"
| "GetPage_headers ((k, v) # rest) req =
     (case v of
        [] \<Rightarrow> None
      | v0 # vs \<Rightarrow> GetPage_headers rest (req\<lparr>req_Header := Header_Set (req_Header req) k v0\<rparr>))"

text \<open>The test \<^verbatim>\<open>urlerror, ok := err.(*url.Error); !ok || urlerror.Err != ErrorCheckRedirect\<close>.\<close>

fun not_blocked_redirect :: "error \<Rightarrow> bool" where
  "not_blocked_redirect (UrlError msg inner) = (inner \<noteq> ErrorCheckRedirect)"
| "not_blocked_redirect err = True"

text \<open>
  \<^verbatim>\<open>GetPage\<close> returns a page pointer, \<open>None\<close> for \<^verbatim>\<open>nil\<close>, and an error, \<open>None\<close> for \<^verbatim>\<open>nil\<close>;
  the outer \<open>None\<close> is a panic.
\<close>

definition GetPage ::
    "golib \<Rightarrow> 'w sys \<Rightarrow> Crawler \<Rightarrow> string \<Rightarrow> string \<Rightarrow> 'w
       \<Rightarrow> ((Page option \<times> error option) \<times> 'w) option" where
  "GetPage lib sys c crawlUrl method w =
     (case time_Now sys w of
        (timeStart, w) \<Rightarrow>
          (case NewRequest lib method crawlUrl of
             Inl err \<Rightarrow> Some ((None, Some err), w)
           | Inr req \<Rightarrow>
               (case GetPage_headers (cw_Header c) req of
                  None \<Rightarrow> None
                | Some req \<Rightarrow>
                    (case Client_Do sys req w of
                       ((res, err), w) \<Rightarrow>
                         (case time_Now sys w of
                            (timeEnd, w) \<Rightarrow>
                              (let timeDur = timeEnd - timeStart
                               in case PageFromResponse lib sys c req res timeDur w of
                                    None \<Rightarrow> None
                                  | Some (page, w) \<Rightarrow>
                                      (case err of
                                         Some e \<Rightarrow>
                                           if not_blocked_redirect e
                                           then Some ((Some (page\<lparr>Error := error_Error e\<rparr>),
                                                       Some e), w)
                                           else Some ((Some page, None), w)
                                       | None \<Rightarrow> Some ((Some page, None), w))))))))"

section \<open>Persistence and resume\<close>

definition checkFatal :: "error option \<Rightarrow> bool" where
  "checkFatal e = (e \<noteq> None)"

text \<open>\<^verbatim>\<open>SavePage\<close>: the world after it, or the exit of the process where \<^verbatim>\<open>log.Fatal\<close> runs
  (\<open>checkFatal\<close> tells whether it does). The error of the last \<^verbatim>\<open>WriteFile\<close> is dropped.\<close>

definition SavePage :: "golib \<Rightarrow> 'w sys \<Rightarrow> Crawler \<Rightarrow> Page option \<Rightarrow> 'w \<Rightarrow> 'w exec" where
  "SavePage lib sys c page w =
     (if StorageFolder c = [] then Returns w
      else case page of
        None \<Rightarrow> Exits
      | Some page \<Rightarrow>
          (case Stat_IsNotExist sys ''./storage'' w of
             (notExist, w) \<Rightarrow>
               (case (if notExist then Mkdir sys ''storage'' w else (None, w)) of
                  (err, w) \<Rightarrow>
                    if checkFatal err then Exits
                    else (let fileName = FormatInt lib (CrawlTime page);
                              filePath = path_Join lib (StorageFolder c) (fileName @ ''.respbin'')
                          in case WriteFile sys filePath (ResponseBody page) w of
                               (err, w) \<Rightarrow>
                                 if checkFatal err then Exits
                                 else (case json_MarshalIndent lib page of
                                         Inl err \<Rightarrow> Exits
                                       | Inr content \<Rightarrow>
                                           (let filePath = path_Join lib (StorageFolder c)
                                                             (fileName @ ''.httpi'')
                                            in case WriteFile sys filePath content w of
                                                 (err, w) \<Rightarrow> Returns w))))))"

fun GetPageInfoFiles_range :: "golib \<Rightarrow> string \<Rightarrow> string list \<Rightarrow> string list \<Rightarrow> string list" where
  "GetPageInfoFiles_range lib folder [] paths = paths"
| "GetPageInfoFiles_range lib folder (file # files) paths =
     (let isHttpi = HasSuffix file ''.httpi''
      in if \<not> isHttpi then GetPageInfoFiles_range lib folder files paths
         else GetPageInfoFiles_range lib folder files (paths @ [path_Join lib folder file]))"

definition GetPageInfoFiles ::
    "golib \<Rightarrow> 'w sys \<Rightarrow> string \<Rightarrow> 'w \<Rightarrow> (string list \<times> error option) \<times> 'w" where
  "GetPageInfoFiles lib sys folder w =
     (case ReadDir sys folder w of
        (Inl err, w) \<Rightarrow> (([], Some err), w)
      | (Inr files, w) \<Rightarrow> ((GetPageInfoFiles_range lib folder files [], None), w))"

definition LoadPage :: "golib \<Rightarrow> 'w sys \<Rightarrow> string \<Rightarrow> bool \<Rightarrow> 'w \<Rightarrow> (error + Page) \<times> 'w" where
  "LoadPage lib sys filepath withContent w =
     (case ReadFile sys filepath w of
        (Inl err, w) \<Rightarrow> (Inl err, w)
      | (Inr content, w) \<Rightarrow>
          (case json_Unmarshal lib content of
             Inl err \<Rightarrow> (Inl err, w)
           | Inr page \<Rightarrow>
               if withContent
               then (let respbinfile = Replace_first filepath ''.httpi'' ''.respbin''
                     in case ReadFile sys respbinfile w of
                          (Inl err, w) \<Rightarrow> (Inr (page\<lparr>ResponseBody := []\<rparr>), w)
                        | (Inr respbinContent, w) \<Rightarrow>
                            (Inr (page\<lparr>ResponseBody := respbinContent\<rparr>), w))
               else (Inr page, w)))"

text \<open>
  The loop of \<^verbatim>\<open>LoadPages\<close> over the files. A hook is applied when it is set; the error
  it returns is dropped and the value it returns is used. \<^verbatim>\<open>AfterCrawlFn\<close> is called with the
  \<^verbatim>\<open>err\<close> of the loop body, which is \<^verbatim>\<open>nil\<close> there.
\<close>

fun LoadPages_range ::
    "golib \<Rightarrow> 'w sys \<Rightarrow> string list \<Rightarrow> nat \<Rightarrow> Crawler \<Rightarrow> 'w
       \<Rightarrow> (nat \<times> error option) \<times> Crawler \<times> 'w" where
  "LoadPages_range lib sys [] readCount cw w = ((readCount, None), cw, w)"
| "LoadPages_range lib sys (file # files) readCount cw w =
     (case LoadPage lib sys file False w of
        (Inl err, w) \<Rightarrow> ((readCount, Some err), cw, w)
      | (Inr p, w) \<Rightarrow>
          (let url = URL p;
               url = (case BeforeCrawlFn cw of Some beforeCrawlFn \<Rightarrow> fst (beforeCrawlFn url)
                      | None \<Rightarrow> url);
               links = Hrefs (RespInfo p);
               links = (case AfterCrawlFn cw of Some afterCrawlFn \<Rightarrow> fst (afterCrawlFn p None)
                        | None \<Rightarrow> links);
               cw = AddCrawledLinks [url] cw;
               cw = AddAllLinks links cw
           in LoadPages_range lib sys files (readCount + 1) cw w))"

definition LoadPages ::
    "golib \<Rightarrow> 'w sys \<Rightarrow> string \<Rightarrow> Crawler \<Rightarrow> 'w
       \<Rightarrow> ((nat \<times> error option) \<times> Crawler \<times> 'w) exec" where
  "LoadPages lib sys folderpath cw w =
     (if folderpath = [] then Returns ((0, None), cw, w)
      else case GetPageInfoFiles lib sys folderpath w of
             ((files, Some err), w) \<Rightarrow> Exits
           | ((files, None), w) \<Rightarrow> Returns (LoadPages_range lib sys files 0 cw w))"

text \<open>
  The spec's wording of resume, to compare \<open>LoadPages\<close> with. \<open>load_all\<close> loads the
  metadata files in order and stops at the first that fails: the records loaded before
  it, the error if there is one, and the world after. \<open>resume_url\<close> and \<open>resume_links\<close>
  are the URL and the link set of a record as recomputed by the hooks that are
  configured, and \<open>resume_record\<close> marks the recomputed URL visited and adds all the
  recomputed links, with no look at \<open>ScopeToDomain\<close>.
\<close>

fun load_all :: "golib \<Rightarrow> 'w sys \<Rightarrow> string list \<Rightarrow> 'w \<Rightarrow> Page list \<times> error option \<times> 'w" where
  "load_all lib sys [] w = ([], None, w)"
| "load_all lib sys (file # files) w =
     (case LoadPage lib sys file False w of
        (Inl err, w) \<Rightarrow> ([], Some err, w)
      | (Inr p, w) \<Rightarrow> (case load_all lib sys files w of (ps, e, w) \<Rightarrow> (p # ps, e, w)))"

definition resume_url :: "Crawler \<Rightarrow> Page \<Rightarrow> string" where
  "resume_url cw p = (case BeforeCrawlFn cw of None \<Rightarrow> URL p | Some hook \<Rightarrow> fst (hook (URL p)))"

definition resume_links :: "Crawler \<Rightarrow> Page \<Rightarrow> string list" where
  "resume_links cw p =
     (case AfterCrawlFn cw of None \<Rightarrow> Hrefs (RespInfo p) | Some hook \<Rightarrow> fst (hook p None))"

definition resume_record :: "Crawler \<Rightarrow> Page \<Rightarrow> Crawler" where
  "resume_record cw p = AddAllLinks (resume_links cw p) (AddCrawledLinks [resume_url cw p] cw)"

section \<open>The crawl loop\<close>

definition IsValidScheme :: "Crawler \<Rightarrow> URL \<Rightarrow> bool" where
  "IsValidScheme cw url = ContainsString (ValidSchemes cw) (Scheme url)"

text \<open>\<^verbatim>\<open>GetNextLink\<close> ranges over the frontier, in the order \<open>keys\<close> of this range, and
  returns the first key whose flag is false.\<close>

fun GetNextLink_range :: "Crawler \<Rightarrow> string list \<Rightarrow> string \<times> bool" where
  "GetNextLink_range c [] = ([], False)"
| "GetNextLink_range c (i # keys) =
     (case Links c i of
        Some l \<Rightarrow> if l = False then (i, True) else GetNextLink_range c keys
      | None \<Rightarrow> GetNextLink_range c keys)"

definition GetNextLink :: "'w sys \<Rightarrow> Crawler \<Rightarrow> 'w \<Rightarrow> (string \<times> bool) \<times> 'w" where
  "GetNextLink sys c w =
     (case range_order sys (Links c) w of (keys, w) \<Rightarrow> (GetNextLink_range c keys, w))"

text \<open>
  One turn of the \<^verbatim>\<open>for\<close> loop of \<^verbatim>\<open>FetchSites\<close>, from the state it carries over: the flag
  \<^verbatim>\<open>crawlStartUrlFirst\<close>, the crawler and the world (\<open>FetchSites_turn\<close>, in three parts). It ends in \<open>Continue\<close> with the next
  state (at a \<^verbatim>\<open>continue\<close> or at the end of the body), or in \<open>Break\<close>: the function returns
  its error or \<^verbatim>\<open>nil\<close>, or the process exits in \<^verbatim>\<open>SavePage\<close>, or \<^verbatim>\<open>page.Response.StatusCode\<close>
  panics on a nil pointer. \<^verbatim>\<open>time.Sleep\<close> is not modelled. \<^verbatim>\<open>PageCount\<close> is a \<^verbatim>\<open>uint64\<close>.
\<close>

datatype ('s, 'r) turn = Continue 's | Break 'r

text \<open>The head of the loop body: the URL of this turn, whether there is one, the flag
  and the world after the choice.\<close>

fun FetchSites_select ::
    "golib \<Rightarrow> 'w sys \<Rightarrow> URL option \<Rightarrow> bool \<times> Crawler \<times> 'w \<Rightarrow> string \<times> bool \<times> bool \<times> 'w" where
  "FetchSites_select lib sys startUrl (crawlStartUrlFirst, cw, w) =
     (if \<not> crawlStartUrlFirst \<or> startUrl = None
      then (case GetNextLink sys cw w of
              ((urlStr, found), w) \<Rightarrow> (urlStr, found, crawlStartUrlFirst, w))
      else (case startUrl of
              Some u \<Rightarrow> (URL_String lib u, True, False, w)
            | None \<Rightarrow> ([], False, crawlStartUrlFirst, w)))"

text \<open>The tail of the loop body, from \<^verbatim>\<open>GetPage\<close> to the expansion of the frontier.\<close>

definition FetchSites_fetch ::
    "golib \<Rightarrow> 'w sys \<Rightarrow> URL option \<Rightarrow> bool \<Rightarrow> Crawler \<Rightarrow> string \<Rightarrow> 'w
       \<Rightarrow> (bool \<times> Crawler \<times> 'w, (error option \<times> Crawler \<times> 'w) exec) turn" where
  "FetchSites_fetch lib sys startUrl crawlStartUrlFirst cw urlStr w =
     (case GetPage lib sys cw urlStr ''GET'' w of
        None \<Rightarrow> Break Panics
      | Some ((None, err), w) \<Rightarrow> Break Panics
      | Some ((Some page, err), w) \<Rightarrow>
          (case Response page of
             None \<Rightarrow> Break Panics
           | Some response \<Rightarrow>
               (let userLinks = Hrefs (RespInfo page);
                    userLinks =
                      (case AfterCrawlFn cw of
                         Some afterCrawlFn \<Rightarrow> fst (afterCrawlFn page err)
                       | None \<Rightarrow> userLinks)
                in case SavePage lib sys cw (Some page) w of
                     Exits \<Rightarrow> Break Exits
                   | Panics \<Rightarrow> Break Panics
                   | Returns w \<Rightarrow>
                       (let cw = cw\<lparr>PageCount := (PageCount cw + 1) mod 2 ^ 64\<rparr>;
                            cw = (if startUrl \<noteq> None \<and> ScopeToDomain cw
                                  then (case startUrl of
                                          Some u \<Rightarrow> AddLinksMatchingDomain lib userLinks u cw
                                        | None \<Rightarrow> cw)
                                  else AddAllLinks userLinks cw)
                        in Continue (crawlStartUrlFirst, cw, w)))))"

fun FetchSites_turn ::
    "golib \<Rightarrow> 'w sys \<Rightarrow> URL option \<Rightarrow> bool \<times> Crawler \<times> 'w
       \<Rightarrow> (bool \<times> Crawler \<times> 'w, (error option \<times> Crawler \<times> 'w) exec) turn" where
  "FetchSites_turn lib sys startUrl (crawlStartUrlFirst, cw, w) =
     (case FetchSites_select lib sys startUrl (crawlStartUrlFirst, cw, w) of
        (urlStr, found, crawlStartUrlFirst, w) \<Rightarrow>
          if \<not> found then Break (Returns (None, cw, w))
          else
            (case (case BeforeCrawlFn cw of
                     Some beforeCrawlFn \<Rightarrow> beforeCrawlFn urlStr
                   | None \<Rightarrow> (urlStr, None)) of
               (url, Some err) \<Rightarrow> Break (Returns (Some err, cw, w))
             | (urlStr, None) \<Rightarrow>
                 (let cw = cw\<lparr>Links := (Links cw)(urlStr \<mapsto> True)\<rparr>
                  in case url_Parse lib urlStr of
                       Inl err \<Rightarrow> Continue (crawlStartUrlFirst, cw, w)
                     | Inr nextUrl \<Rightarrow>
                         if \<not> IsValidScheme cw nextUrl
                         then Continue (crawlStartUrlFirst, cw, w)
                         else FetchSites_fetch lib sys startUrl crawlStartUrlFirst cw urlStr w)))"

text \<open>The loop runs turns until one breaks; it may run forever, and then has no result.\<close>

partial_function (option) FetchSites_loop ::
    "golib \<Rightarrow> 'w sys \<Rightarrow> URL option \<Rightarrow> bool \<times> Crawler \<times> 'w
       \<Rightarrow> (error option \<times> Crawler \<times> 'w) exec option" where
  "FetchSites_loop lib sys startUrl state =
     (case FetchSites_turn lib sys startUrl state of
        Break r \<Rightarrow> Some r
      | Continue state' \<Rightarrow> FetchSites_loop lib sys startUrl state')"

definition FetchSites ::
    "golib \<Rightarrow> 'w sys \<Rightarrow> URL option \<Rightarrow> Crawler \<Rightarrow> 'w
       \<Rightarrow> (error option \<times> Crawler \<times> 'w) exec option" where
  "FetchSites lib sys startUrl cw w =
     (case startUrl of
        None \<Rightarrow> FetchSites_loop lib sys startUrl (False, cw, w)
      | Some u \<Rightarrow>
          (let cw = AddAllLinks [URL_String lib u] cw;
               crawlStartUrlFirst = (if \<not> IsCrawled cw (URL_String lib u) then True else False)
           in FetchSites_loop lib sys startUrl (crawlStartUrlFirst, cw, w)))"

section \<open>Concrete inputs for the examples\<close>

text \<open>
  What \<^verbatim>\<open>net/url\<close> returns on the strings of the examples: \<^verbatim>\<open>url.Parse\<close> as a table (the host
  is kept as written, upper case included; \<^verbatim>\<open>%zz\<close> is an invalid escape and is not in
  the table, like every other string), \<^verbatim>\<open>ResolveReference\<close> for a reference that is
  absolute or has an absolute path and nothing before it, and \<^verbatim>\<open>String\<close> for a URL with a
  scheme and a host. The document parser yields the document \<open>doc\<close> it is given for
  every body, \<^verbatim>\<open>http.NewRequest\<close> fails where \<^verbatim>\<open>url.Parse\<close> does, and \<^verbatim>\<open>path.Join\<close> is right for a
  clean directory and a plain file name. The other library functions of \<open>example_lib\<close>
  are stand-ins that no example depends on.
\<close>

definition mkURL :: "string \<Rightarrow> string \<Rightarrow> string \<Rightarrow> URL" where
  "mkURL s h p = \<lparr>Scheme = s, Host = h, Path = p, RawQuery = [], Fragment = []\<rparr>"

definition example_URLs :: "(string \<times> URL) list" where
  "example_URLs =
     [(''http://a.example.com/x'', mkURL ''http'' ''a.example.com'' ''/x''),
      (''http://a.example.com/y'', mkURL ''http'' ''a.example.com'' ''/y''),
      (''http://b.other.com/z'', mkURL ''http'' ''b.other.com'' ''/z''),
      (''http://sub.example.com/w'', mkURL ''http'' ''sub.example.com'' ''/w''),
      (''http://www.EXAMPLE.com/v'', mkURL ''http'' ''www.EXAMPLE.com'' ''/v''),
      (''http://ex.com/old'', mkURL ''http'' ''ex.com'' ''/old''),
      (''http://ex.com/new'', mkURL ''http'' ''ex.com'' ''/new''),
      (''http://ex.com/h'', mkURL ''http'' ''ex.com'' ''/h''),
      (''/new'', mkURL [] [] ''/new''),
      (''/h'', mkURL [] [] ''/h''),
      (''b'', mkURL [] [] ''b'')]"

definition example_Parse :: "string \<Rightarrow> error + URL" where
  "example_Parse s =
     (case map_of example_URLs s of
        Some u \<Rightarrow> Inr u
      | None \<Rightarrow> Inl (UrlError (''parse '' @ s) (OtherError ''invalid URL'')))"

definition example_Resolve :: "URL \<Rightarrow> URL \<Rightarrow> URL" where
  "example_Resolve base ref =
     (if Scheme ref \<noteq> [] then ref
      else base\<lparr>Path := Path ref, RawQuery := RawQuery ref, Fragment := Fragment ref\<rparr>)"

definition example_String :: "URL \<Rightarrow> string" where
  "example_String u =
     Scheme u @ ''://'' @ Host u @ Path u
       @ (if RawQuery u = [] then [] else ''?'' @ RawQuery u)
       @ (if Fragment u = [] then [] else ''#'' @ Fragment u)"

definition example_lib :: "Document \<Rightarrow> golib" where
  "example_lib doc =
     \<lparr>url_Parse = example_Parse,
      ResolveReference = example_Resolve,
      URL_String = example_String,
      NewDocumentFromReader = (\<lambda>body. Inr doc),
      NewRequest = (\<lambda>method crawlUrl.
         case example_Parse crawlUrl of
           Inl err \<Rightarrow> Inl err
         | Inr u \<Rightarrow> Inr \<lparr>req_Method = method, req_URL = u, req_Header = [],
                         req_Proto = ''HTTP/1.1'', req_ContentLength = 0\<rparr>),
      sha1_hex = (\<lambda>message. []),
      Seconds_times_1000 = (\<lambda>d. d div 1000000),
      json_Unmarshal = (\<lambda>content. Inl (OtherError ''unexpected end of JSON input'')),
      json_MarshalIndent = (\<lambda>page. Inr []),
      path_Join = (\<lambda>dir name. dir @ ''/'' @ name),
      FormatInt = (\<lambda>i. [])\<rparr>"

text \<open>
  A world for the examples: the state counts the clock readings, one second apart; the
  client answers every request with \<open>answer\<close>; there is no disk (every file operation
  fails, and nothing exists); a range over a map visits, in the order of \<open>universe\<close>,
  the keys of the map listed there.
\<close>

definition example_sys :: "(Request \<Rightarrow> Response option \<times> error option) \<Rightarrow> string list \<Rightarrow> nat sys" where
  "example_sys answer universe =
     \<lparr>time_Now = (\<lambda>w. (int w * 1000000000, w + 1)),
      Client_Do = (\<lambda>req w. (answer req, w)),
      ReadDir = (\<lambda>folder w. (Inl (OtherError ''no such file or directory''), w)),
      ReadFile = (\<lambda>file w. (Inl (OtherError ''no such file or directory''), w)),
      WriteFile = (\<lambda>file content w. (Some (OtherError ''no such file or directory''), w)),
      Mkdir = (\<lambda>dir w. (Some (OtherError ''permission denied''), w)),
      Stat_IsNotExist = (\<lambda>file w. (True, w)),
      range_order = (\<lambda>m w. ([k \<leftarrow> universe. m k \<noteq> None], w))\<rparr>"

text \<open>A crawler whose pre-fetch hook rewrites every URL to \<^verbatim>\<open>b\<close>, with the one unvisited
  entry \<^verbatim>\<open>a\<close> in its frontier.\<close>

definition rewriting_hook :: "string \<Rightarrow> string \<times> error option" where
  "rewriting_hook urlStr = (''b'', None)"

definition rewriting_crawler :: Crawler where
  "rewriting_crawler =
     NewCrawler\<lparr>Links := [''a'' \<mapsto> False], BeforeCrawlFn := Some rewriting_hook\<rparr>"

text \<open>A server that answers every request with a redirect to \<^verbatim>\<open>/new\<close>; the client blocks
  it, so \<^verbatim>\<open>Do\<close> returns the response with its body closed and the error of
  \<^verbatim>\<open>CheckRedirect\<close> wrapped in a \<^verbatim>\<open>*url.Error\<close>.\<close>

definition blocked_redirect :: "Request \<Rightarrow> Response option \<times> error option" where
  "blocked_redirect req =
     (Some \<lparr>resp_StatusCode = 302, resp_Header = [(''Location'', [''/new''])],
            resp_Proto = ''HTTP/1.1'',
            resp_Body = Inl (OtherError ''http: read on closed response body'')\<rparr>,
      Some (UrlError ''Get /new: dont redirect'' ErrorCheckRedirect))"

section \<open>Properties of the frontier\<close>

lemma AddAllLinks_Links:
  "Links (AddAllLinks links cw) u =
     (if u \<in> set links \<and> Links cw u = None then Some False else Links cw u)"
  by (induction links arbitrary: cw) (auto simp: IsCrawled_def Let_def split: option.splits)

lemma AddAllLinks_only_Links: "\<exists>L. AddAllLinks links cw = cw\<lparr>Links := L\<rparr>"
proof (induction links arbitrary: cw)
  case Nil
  have "cw = cw\<lparr>Links := Links cw\<rparr>" by simp
  then show ?case by (simp only: AddAllLinks.simps) blast
next
  case (Cons newLink links)
  obtain L where "AddAllLinks links (cw\<lparr>Links := (Links cw)(newLink \<mapsto> IsCrawled cw newLink)\<rparr>)
      = cw\<lparr>Links := (Links cw)(newLink \<mapsto> IsCrawled cw newLink)\<rparr>\<lparr>Links := L\<rparr>"
    using Cons.IH by blast
  then have "AddAllLinks (newLink # links) cw = cw\<lparr>Links := L\<rparr>"
    by (simp add: Let_def)
  then show ?case by blast
qed

lemma AddAllLinks_more:
  "AddAllLinks links cw = cw\<lparr>Links := Links (AddAllLinks links cw)\<rparr>"
proof -
  obtain L where "AddAllLinks links cw = cw\<lparr>Links := L\<rparr>"
    using AddAllLinks_only_Links by blast
  then show ?thesis by simp
qed

lemma AddAllLinks_append:
  "AddAllLinks (xs @ ys) cw = AddAllLinks ys (AddAllLinks xs cw)"
  by (induction xs arbitrary: cw) (auto simp: Let_def)

lemma dom_AddAllLinks: "dom (Links (AddAllLinks links cw)) = dom (Links cw) \<union> set links"
  by (auto simp: AddAllLinks_Links dom_def split: if_splits)


lemma IsCrawled_AddAllLinks: "IsCrawled cw u \<Longrightarrow> IsCrawled (AddAllLinks links cw) u"
  by (auto simp: IsCrawled_def AddAllLinks_Links split: option.splits)

lemma AddAllLinks_fold_append: "fold AddAllLinks calls cw = AddAllLinks (concat calls) cw"
  by (induction calls arbitrary: cw) (simp_all add: AddAllLinks_append)

lemma AddAllLinks_cong_set:
  assumes "set xs = set ys"
  shows "AddAllLinks xs cw = AddAllLinks ys cw"
proof -
  have "Links (AddAllLinks xs cw) = Links (AddAllLinks ys cw)"
    by (rule ext) (simp add: AddAllLinks_Links assms)
  then show ?thesis
    using AddAllLinks_more [of xs cw] AddAllLinks_more [of ys cw] by simp
qed

text \<open>
  C3. \<open>AddAllLinks\<close> inserts every URL of the list that is not yet a key with the flag
  \<open>False\<close> and leaves every other entry as it was, a visited flag included: a URL for
  which \<open>IsCrawled\<close> holds before the call satisfies it after the call. Any number of
  calls, with lists that may overlap, leave the same key set (and the same map) as one call
  with a list of the union of their URLs.
\<close>

theorem AddAllLinks_inserts_unvisited_keeps_flags:
  "(u \<in> set urls \<and> Links cw u = None \<longrightarrow> Links (AddAllLinks urls cw) u = Some False)
   \<and> (Links cw u \<noteq> None \<longrightarrow> Links (AddAllLinks urls cw) u = Links cw u)
   \<and> (u \<notin> set urls \<longrightarrow> Links (AddAllLinks urls cw) u = Links cw u)
   \<and> (u \<in> set urls \<and> IsCrawled cw u \<longrightarrow> IsCrawled (AddAllLinks urls cw) u)
   \<and> (set all_urls = \<Union> (set ` set calls) \<longrightarrow>
        dom (Links (fold AddAllLinks calls cw)) = dom (Links (AddAllLinks all_urls cw))
        \<and> fold AddAllLinks calls cw = AddAllLinks all_urls cw)"
proof -
  have "fold AddAllLinks calls cw = AddAllLinks all_urls cw" if "set all_urls = \<Union> (set ` set calls)"
    unfolding AddAllLinks_fold_append using that by (intro AddAllLinks_cong_set) simp
  then show ?thesis
    by (simp add: AddAllLinks_Links IsCrawled_AddAllLinks)
qed

theorem AddAllLinks_inserts_unvisited_keeps_flags_witness:
  "IsCrawled (AddCrawledLinks [''a''] NewCrawler) ''a''
   \<and> IsCrawled (AddAllLinks [''a'', ''b''] (AddCrawledLinks [''a''] NewCrawler)) ''a''
   \<and> Links (AddAllLinks [''a'', ''b''] (AddCrawledLinks [''a''] NewCrawler)) ''a'' = Some True
   \<and> Links (AddAllLinks [''a'', ''b''] NewCrawler) ''b'' = Some False
   \<and> Links (AddAllLinks [''a'', ''b''] NewCrawler) ''c'' = None
   \<and> dom (Links (fold AddAllLinks [[''a'', ''b''], [''b'', ''c''], [''a'']] NewCrawler))
       = dom (Links (AddAllLinks [''a'', ''b'', ''c''] NewCrawler))"
  using AddAllLinks_inserts_unvisited_keeps_flags
          [of "''a''" "[''a'', ''b'']" "AddCrawledLinks [''a''] NewCrawler"
              "[''a'', ''b'', ''c'']" "[[''a'', ''b''], [''b'', ''c''], [''a'']]"]
        AddAllLinks_inserts_unvisited_keeps_flags
          [of "''b''" "[''a'', ''b'']" NewCrawler "[''a'', ''b'', ''c'']"
              "[[''a'', ''b''], [''b'', ''c''], [''a'']]"]
        AddAllLinks_inserts_unvisited_keeps_flags
          [of "''c''" "[''a'', ''b'']" NewCrawler "[''a'', ''b'', ''c'']"
              "[[''a'', ''b''], [''b'', ''c''], [''a'']]"]
  by (simp add: NewCrawler_def IsCrawled_def insert_commute)

section \<open>Properties of domain scoping\<close>

lemma Split_not_Nil: "Split s c \<noteq> []"
  by (induction s) (auto split: list.splits)

lemma Split_no_separator: "length (Split s c) < 2 \<Longrightarrow> Split s c = [s]"
  by (induction s) (auto split: list.splits if_splits simp: Split_not_Nil)

lemma GetDomain_registrable_domain: "GetDomain h = registrable_domain h"
proof -
  define xs where "xs = Split h CHR ''.''"
  have ne: "xs \<noteq> []" by (simp add: xs_def Split_not_Nil)
  show ?thesis
  proof (cases "length xs < 2")
    case True
    then have "xs = [h]" unfolding xs_def by (rule Split_no_separator)
    then show ?thesis
      by (simp add: GetDomain_def registrable_domain_def Let_def xs_def [symmetric])
  next
    case False
    then have b: "butlast xs \<noteq> []" by (cases xs rule: rev_cases) simp_all
    have "last (butlast xs) = butlast xs ! (length (butlast xs) - 1)"
      using b by (rule last_conv_nth)
    also have "\<dots> = xs ! (length (butlast xs) - 1)"
      using b False by (intro nth_butlast) simp
    also have "length (butlast xs) - 1 = length xs - 2" by simp
    finally have "last (butlast xs) = xs ! (length xs - 2)" .
    moreover have "last xs = xs ! (length xs - 1)" using ne by (simp add: last_conv_nth)
    ultimately show ?thesis using False
      by (simp add: GetDomain_def registrable_domain_def Let_def xs_def [symmetric])
  qed
qed

lemma IsSameDomain_registrable:
  "IsSameDomain baseUrl testUrl
     \<longleftrightarrow> registrable_domain (Host testUrl) = registrable_domain (Host baseUrl)"
  by (auto simp: IsSameDomain_def GetDomain_registrable_domain)

lemma AddLinksMatchingDomain_filter:
  "AddLinksMatchingDomain lib links startUrl cw =
     AddAllLinks
       [l \<leftarrow> links. case url_Parse lib l of Inl e \<Rightarrow> False | Inr u \<Rightarrow> IsSameDomain startUrl u] cw"
proof (induction links arbitrary: cw)
  case Nil
  show ?case by simp
next
  case (Cons newLink links)
  show ?case
  proof (cases "url_Parse lib newLink")
    case (Inl e)
    then show ?thesis by (simp add: Cons.IH)
  next
    case (Inr u)
    show ?thesis
    proof (cases "IsSameDomain startUrl u")
      case True
      then show ?thesis
        using Inr Cons.IH [of "AddAllLinks [newLink] cw"] by (simp add: Let_def)
    next
      case False
      then show ?thesis using Inr by (simp add: Cons.IH)
    qed
  qed
qed

lemma parsed_same_domain_iff:
  "(case url_Parse lib l of Inl e \<Rightarrow> False | Inr u \<Rightarrow> IsSameDomain startUrl u)
     \<longleftrightarrow> (\<exists>u. url_Parse lib l = Inr u
              \<and> registrable_domain (Host u) = registrable_domain (Host startUrl))"
  by (cases "url_Parse lib l") (simp_all add: IsSameDomain_registrable)

text \<open>
  C5. \<open>AddLinksMatchingDomain\<close>, the expansion of the frontier under domain scoping, adds
  exactly the discovered links that parse to a URL whose host has the registrable domain
  of the seed's host (the last two dot-separated labels, or the whole host if there are
  fewer), each as \<open>AddAllLinks\<close> adds it; every other link is left out.
\<close>

theorem AddLinksMatchingDomain_adds_exactly_same_domain:
  "AddLinksMatchingDomain lib links seed cw =
     AddAllLinks
       [l \<leftarrow> links. \<exists>u. url_Parse lib l = Inr u
                       \<and> registrable_domain (Host u) = registrable_domain (Host seed)] cw
   \<and> dom (Links (AddLinksMatchingDomain lib links seed cw)) =
       dom (Links cw)
       \<union> {l. l \<in> set links \<and> (\<exists>u. url_Parse lib l = Inr u
                \<and> registrable_domain (Host u) = registrable_domain (Host seed))}"
proof -
  have eq: "AddLinksMatchingDomain lib links seed cw =
     AddAllLinks
       [l \<leftarrow> links. \<exists>u. url_Parse lib l = Inr u
                       \<and> registrable_domain (Host u) = registrable_domain (Host seed)] cw"
    by (simp only: AddLinksMatchingDomain_filter parsed_same_domain_iff)
  show ?thesis
    by (rule conjI, rule eq, simp only: eq dom_AddAllLinks set_filter)
qed

theorem AddLinksMatchingDomain_example:
  "Links (AddLinksMatchingDomain (example_lib [])
            [''http://a.example.com/y'', ''http://b.other.com/z'', ''http://sub.example.com/w'']
            (mkURL ''http'' ''a.example.com'' ''/x'') NewCrawler)
     = [''http://a.example.com/y'' \<mapsto> False, ''http://sub.example.com/w'' \<mapsto> False]
   \<and> url_Parse (example_lib []) ''http://a.example.com/x''
       = Inr (mkURL ''http'' ''a.example.com'' ''/x'')
   \<and> registrable_domain ''a.example.com'' = ''example.com''
   \<and> registrable_domain ''sub.example.com'' = ''example.com''
   \<and> registrable_domain ''b.other.com'' = ''other.com''
   \<and> registrable_domain ''localhost'' = ''localhost''"
  using AddLinksMatchingDomain_adds_exactly_same_domain
          [of "example_lib []"
              "[''http://a.example.com/y'', ''http://b.other.com/z'', ''http://sub.example.com/w'']"
              "mkURL ''http'' ''a.example.com'' ''/x''" NewCrawler]
  by (simp add: example_lib_def example_Parse_def example_URLs_def mkURL_def
        registrable_domain_def NewCrawler_def IsCrawled_def Let_def)

lemma RemoveLinks_range_Links:
  "Links (RemoveLinks_range lib baseUrl keys cw) k =
     (if k \<in> set keys
         \<and> \<not> (case url_Parse lib k of Inl e \<Rightarrow> False | Inr u \<Rightarrow> IsSameDomain baseUrl u)
      then None else Links cw k)"
  by (induction keys arbitrary: cw) (auto split: sum.splits)

text \<open>
  C6. \<open>RemoveLinksNotSameHost\<close>, ranging over the keys of the frontier in any order,
  keeps an entry, with its visited flag as it was, exactly when its key parses to a URL
  whose host has the registrable domain of the scope URL's host, the two compared as
  strings (so case-sensitively); every other entry is removed.
\<close>

theorem RemoveLinksNotSameHost_keeps_exactly_same_domain:
  assumes "set keys = dom (Links cw)"
  shows "Links (RemoveLinksNotSameHost lib keys scope cw) k =
           (if \<exists>u. url_Parse lib k = Inr u
                    \<and> registrable_domain (Host u) = registrable_domain (Host scope)
            then Links cw k else None)"
proof -
  have "Links cw k = None" if "k \<notin> set keys"
    using that assms by (simp add: domIff)
  then show ?thesis
    unfolding RemoveLinksNotSameHost_def RemoveLinks_range_Links parsed_same_domain_iff
    by auto
qed

theorem RemoveLinksNotSameHost_keeps_exactly_same_domain_witness:
  "Links (RemoveLinksNotSameHost (example_lib [])
            [''%zz'', ''http://sub.example.com/w'', ''http://www.EXAMPLE.com/v'',
             ''http://b.other.com/z'', ''http://a.example.com/y'']
            (mkURL ''http'' ''a.example.com'' ''/x'')
            (AddAllLinks [''http://b.other.com/z'', ''http://sub.example.com/w'',
                          ''http://www.EXAMPLE.com/v'', ''%zz'']
               (AddCrawledLinks [''http://a.example.com/y''] NewCrawler)))
     = [''http://a.example.com/y'' \<mapsto> True, ''http://sub.example.com/w'' \<mapsto> False]"
proof -
  let ?cw = "AddAllLinks [''http://b.other.com/z'', ''http://sub.example.com/w'',
                          ''http://www.EXAMPLE.com/v'', ''%zz'']
               (AddCrawledLinks [''http://a.example.com/y''] NewCrawler)"
  let ?keys = "[''%zz'', ''http://sub.example.com/w'', ''http://www.EXAMPLE.com/v'',
             ''http://b.other.com/z'', ''http://a.example.com/y'']"
  have keys: "set ?keys = dom (Links ?cw)"
    by (simp only: dom_AddAllLinks) (simp add: NewCrawler_def insert_commute)
  show ?thesis
    by (rule ext, simp only: RemoveLinksNotSameHost_keeps_exactly_same_domain [OF keys]
          AddAllLinks_Links)
      (simp add: example_lib_def example_Parse_def example_URLs_def mkURL_def
         registrable_domain_def NewCrawler_def Let_def)
qed

section \<open>Properties of the HTML extractor\<close>

lemma contains_set: "contains s e \<longleftrightarrow> e \<in> set s"
  by (induction s) auto

lemma set_GetHrefs_each:
  "set (GetHrefs_each lib baseUrl removeInvisibles nodes hrefs) =
     set hrefs
     \<union> {ToAbsUrl lib baseUrl href | href s. s \<in> set nodes \<and> Attr s ''href'' = Some href
          \<and> \<not> (removeInvisibles
                \<and> (case Attr s ''style'' of Some style \<Rightarrow> IsVisibleCss style | None \<Rightarrow> False))}"
proof -
  define skip where "skip = (\<lambda>s. removeInvisibles
                \<and> (case Attr s ''style'' of Some style \<Rightarrow> IsVisibleCss style | None \<Rightarrow> False))"
  have step: "GetHrefs_each lib baseUrl removeInvisibles (s # rest) hrefs =
     (case Attr s ''href'' of
        None \<Rightarrow> GetHrefs_each lib baseUrl removeInvisibles rest hrefs
      | Some href \<Rightarrow>
          if skip s
          then GetHrefs_each lib baseUrl removeInvisibles rest hrefs
          else (if ToAbsUrl lib baseUrl href \<in> set hrefs
                   then GetHrefs_each lib baseUrl removeInvisibles rest hrefs
                   else GetHrefs_each lib baseUrl removeInvisibles rest (hrefs @ [ToAbsUrl lib baseUrl href])))"
    for s rest hrefs
    unfolding skip_def by (cases "Attr s ''href''") (auto simp: Let_def contains_set)
  have "set (GetHrefs_each lib baseUrl removeInvisibles nodes hrefs) =
     set hrefs
     \<union> {ToAbsUrl lib baseUrl href | href s. s \<in> set nodes \<and> Attr s ''href'' = Some href
          \<and> \<not> skip s}"
  proof (induction nodes arbitrary: hrefs)
    case Nil
    show ?case by simp
  next
    case (Cons s rest)
    show ?case unfolding step
      by (auto simp: Cons.IH split: option.splits)
  qed
  then show ?thesis unfolding skip_def .
qed

lemma GetFormUrls_inputs_map:
  "GetFormUrls_inputs nodes inputs =
     inputs @ map (\<lambda>s. \<lparr>Name = attr_or_empty s ''name'', Type = attr_or_empty s ''type'',
                          Value = attr_or_empty s ''value''\<rparr>) nodes"
  by (induction nodes arbitrary: inputs) simp_all

lemma GetFormUrls_each_map:
  "GetFormUrls_each lib baseUrl nodes forms =
     forms @ map (\<lambda>s. \<lparr>form_Url = abs_attr_or_empty lib baseUrl s ''action'',
                         Method = attr_or_empty s ''method'',
                         Inputs = GetFormUrls_inputs (Find (children s) ''input'') []\<rparr>) nodes"
  by (induction nodes arbitrary: forms) simp_all

lemma GetRessources_link_map:
  "GetRessources_link lib baseUrl nodes ressources =
     ressources @ map (\<lambda>s. \<lparr>Url = abs_attr_or_empty lib baseUrl s ''href'',
                              res_Type = attr_or_empty s ''type'',
                              Rel = attr_or_empty s ''rel'', Tag = ''link''\<rparr>) nodes"
  by (induction nodes arbitrary: ressources) simp_all

lemma GetRessources_img_map:
  "GetRessources_img lib baseUrl nodes ressources =
     ressources @ map (\<lambda>s. \<lparr>Url = abs_attr_or_empty lib baseUrl s ''src'',
                              res_Type = [], Rel = [], Tag = ''img''\<rparr>) nodes"
  by (induction nodes arbitrary: ressources) simp_all

lemma GetRessources_script_map:
  "GetRessources_script lib baseUrl nodes ressources =
     ressources @ map (\<lambda>s. \<lparr>Url = abs_attr_or_empty lib baseUrl s ''src'',
                              res_Type = attr_or_empty s ''type'', Rel = [], Tag = ''script''\<rparr>)
                    [s \<leftarrow> nodes. Attr s ''src'' \<noteq> None]"
  by (induction nodes arbitrary: ressources)
     (auto simp: abs_attr_or_empty_def split: option.splits)

lemma GetRessources_style_map:
  "GetRessources_style lib baseUrl nodes ressources =
     ressources @ map (\<lambda>s. \<lparr>Url = abs_attr_or_empty lib baseUrl s ''src'',
                              res_Type = attr_or_empty s ''type'', Rel = [], Tag = ''style''\<rparr>)
                    [s \<leftarrow> nodes. Attr s ''src'' \<noteq> None]"
  by (induction nodes arbitrary: ressources)
     (auto simp: abs_attr_or_empty_def split: option.splits)

text \<open>
  C1. With \<open>removeInvisibles\<close> set, \<open>GetHrefs\<close> does the opposite of the claim on an anchor
  that has a style: the anchor styled \<^verbatim>\<open>display:none\<close> or \<^verbatim>\<open>visibility:hidden\<close> is in the
  result, and the anchor styled \<^verbatim>\<open>display:block\<close> is left out. Without the flag, and for
  an anchor with no style, the link is in the result.
\<close>

theorem GetHrefs_drops_visible_styled_anchor:
  "GetHrefs (example_lib [])
     [Element ''a'' [(''href'', ''/h''), (''style'', ''display:none'')] []]
     (mkURL ''http'' ''ex.com'' ''/old'') True = [''http://ex.com/h'']
   \<and> GetHrefs (example_lib [])
     [Element ''a'' [(''href'', ''/h''), (''style'', ''visibility:hidden'')] []]
     (mkURL ''http'' ''ex.com'' ''/old'') True = [''http://ex.com/h'']
   \<and> GetHrefs (example_lib [])
     [Element ''a'' [(''href'', ''/h''), (''style'', ''display:block'')] []]
     (mkURL ''http'' ''ex.com'' ''/old'') True = []
   \<and> GetHrefs (example_lib [])
     [Element ''a'' [(''href'', ''/h''), (''style'', ''display:none'')] []]
     (mkURL ''http'' ''ex.com'' ''/old'') False = [''http://ex.com/h'']
   \<and> GetHrefs (example_lib [])
     [Element ''a'' [(''href'', ''/h'')] []]
     (mkURL ''http'' ''ex.com'' ''/old'') True = [''http://ex.com/h'']
   \<and> \<not> IsVisibleCss ''display:none'' \<and> \<not> IsVisibleCss ''visibility:hidden''
   \<and> IsVisibleCss ''display:block''"
  by (simp add: GetHrefs_def Find_def IsVisibleCss_def GetStylesCss_def TrimSpace_def
        isSpace_def Let_def ToAbsUrl_def example_lib_def example_Parse_def example_URLs_def
        example_Resolve_def example_String_def mkURL_def)

text \<open>
  C2, as the claim states it, fails: an \<^verbatim>\<open><img>\<close> element without \<^verbatim>\<open>src\<close> yields a resource,
  with an empty \<open>Url\<close>.
\<close>

theorem GetRessources_img_without_src_counterexample:
  "GetRessources (example_lib []) [Element ''img'' [] []] (mkURL ''http'' ''ex.com'' ''/old'')
     = [\<lparr>Url = [], res_Type = [], Rel = [], Tag = ''img''\<rparr>]"
  by (simp add: GetRessources_def Find_def abs_attr_or_empty_def)

lemma GetRessources_passes:
  "GetRessources lib doc baseUrl =
     map (\<lambda>s. \<lparr>Url = abs_attr_or_empty lib baseUrl s ''href'',
                res_Type = attr_or_empty s ''type'', Rel = attr_or_empty s ''rel'',
                Tag = ''link''\<rparr>)
         (Find doc ''link'')
     @ map (\<lambda>s. \<lparr>Url = abs_attr_or_empty lib baseUrl s ''src'',
                  res_Type = [], Rel = [], Tag = ''img''\<rparr>)
         (Find doc ''img'')
     @ map (\<lambda>s. \<lparr>Url = abs_attr_or_empty lib baseUrl s ''src'',
                  res_Type = attr_or_empty s ''type'', Rel = [], Tag = ''script''\<rparr>)
         [s \<leftarrow> Find doc ''script''. Attr s ''src'' \<noteq> None]
     @ map (\<lambda>s. \<lparr>Url = abs_attr_or_empty lib baseUrl s ''src'',
                  res_Type = attr_or_empty s ''type'', Rel = [], Tag = ''style''\<rparr>)
         [s \<leftarrow> Find doc ''style''. Attr s ''src'' \<noteq> None]"
  unfolding GetRessources_def Let_def GetRessources_link_map GetRessources_img_map
    GetRessources_script_map GetRessources_style_map
  by simp

text \<open>
  C2, amended. \<open>GetRessources\<close> records, in this order: one resource tagged \<^verbatim>\<open>link\<close> for
  every \<^verbatim>\<open><link>\<close> element, with an empty \<open>Url\<close> when it has no \<^verbatim>\<open>href\<close>; one resource
  tagged \<^verbatim>\<open>img\<close> for every \<^verbatim>\<open><img>\<close> element, with an empty \<open>Url\<close> when it has no \<^verbatim>\<open>src\<close>;
  and one resource for each \<^verbatim>\<open><script>\<close> and then each \<^verbatim>\<open><style>\<close> element that carries a
  \<^verbatim>\<open>src\<close> attribute, none for one that does not.
\<close>

theorem GetRessources_link_img_all_script_style_with_src:
  "GetRessources lib doc baseUrl =
     map (\<lambda>s. \<lparr>Url = (case Attr s ''href'' of Some href \<Rightarrow> ToAbsUrl lib baseUrl href | None \<Rightarrow> []),
                res_Type = attr_or_empty s ''type'', Rel = attr_or_empty s ''rel'',
                Tag = ''link''\<rparr>)
         (Find doc ''link'')
     @ map (\<lambda>s. \<lparr>Url = (case Attr s ''src'' of Some href \<Rightarrow> ToAbsUrl lib baseUrl href | None \<Rightarrow> []),
                  res_Type = [], Rel = [], Tag = ''img''\<rparr>)
         (Find doc ''img'')
     @ map (\<lambda>s. \<lparr>Url = (case Attr s ''src'' of Some href \<Rightarrow> ToAbsUrl lib baseUrl href | None \<Rightarrow> []),
                  res_Type = attr_or_empty s ''type'', Rel = [], Tag = ''script''\<rparr>)
         [s \<leftarrow> Find doc ''script''. Attr s ''src'' \<noteq> None]
     @ map (\<lambda>s. \<lparr>Url = (case Attr s ''src'' of Some href \<Rightarrow> ToAbsUrl lib baseUrl href | None \<Rightarrow> []),
                  res_Type = attr_or_empty s ''type'', Rel = [], Tag = ''style''\<rparr>)
         [s \<leftarrow> Find doc ''style''. Attr s ''src'' \<noteq> None]"
  unfolding GetRessources_passes abs_attr_or_empty_def
  by simp

theorem GetRessources_link_img_all_script_style_with_src_witness:
  "GetRessources (example_lib [])
     [Element ''script'' [] [Text ''x = 1''],
      Element ''img'' [] [],
      Element ''div'' []
        [Element ''style'' [] [], Element ''link'' [(''rel'', ''stylesheet'')] [],
         Element ''script'' [(''src'', ''/h''), (''type'', ''text/javascript'')] []],
      Element ''link'' [(''href'', ''/new'')] [],
      Element ''style'' [(''src'', ''/h'')] []]
     (mkURL ''http'' ''ex.com'' ''/old'')
   = [\<lparr>Url = [], res_Type = [], Rel = ''stylesheet'', Tag = ''link''\<rparr>,
      \<lparr>Url = ''http://ex.com/new'', res_Type = [], Rel = [], Tag = ''link''\<rparr>,
      \<lparr>Url = [], res_Type = [], Rel = [], Tag = ''img''\<rparr>,
      \<lparr>Url = ''http://ex.com/h'', res_Type = ''text/javascript'', Rel = [], Tag = ''script''\<rparr>,
      \<lparr>Url = ''http://ex.com/h'', res_Type = [], Rel = [], Tag = ''style''\<rparr>]"
  unfolding GetRessources_link_img_all_script_style_with_src
  by (simp add: Find_def attr_or_empty_def ToAbsUrl_def example_lib_def example_Parse_def
        example_URLs_def example_Resolve_def example_String_def mkURL_def)

lemma in_GetRessources_link:
  "s \<in> set (Find doc ''link'') \<Longrightarrow>
     \<lparr>Url = abs_attr_or_empty lib baseUrl s ''href'', res_Type = attr_or_empty s ''type'',
      Rel = attr_or_empty s ''rel'', Tag = ''link''\<rparr> \<in> set (GetRessources lib doc baseUrl)"
  unfolding GetRessources_passes by simp

lemma in_GetRessources_img:
  "s \<in> set (Find doc ''img'') \<Longrightarrow>
     \<lparr>Url = abs_attr_or_empty lib baseUrl s ''src'', res_Type = [], Rel = [], Tag = ''img''\<rparr>
       \<in> set (GetRessources lib doc baseUrl)"
  unfolding GetRessources_passes by simp

lemma in_GetRessources_script:
  "s \<in> set (Find doc ''script'') \<Longrightarrow> Attr s ''src'' \<noteq> None \<Longrightarrow>
     \<lparr>Url = abs_attr_or_empty lib baseUrl s ''src'', res_Type = attr_or_empty s ''type'',
      Rel = [], Tag = ''script''\<rparr> \<in> set (GetRessources lib doc baseUrl)"
  unfolding GetRessources_passes by simp

lemma in_GetRessources_style:
  "s \<in> set (Find doc ''style'') \<Longrightarrow> Attr s ''src'' \<noteq> None \<Longrightarrow>
     \<lparr>Url = abs_attr_or_empty lib baseUrl s ''src'', res_Type = attr_or_empty s ''type'',
      Rel = [], Tag = ''style''\<rparr> \<in> set (GetRessources lib doc baseUrl)"
  unfolding GetRessources_passes by simp

text \<open>
  C10. \<open>ToAbsUrl\<close> returns the empty string whenever the reference fails to parse, and
  the reference resolved against the base, as a string, otherwise. So an attribute that
  does not parse puts the empty string in the extractors' output: among the hyperlinks
  for the \<^verbatim>\<open>href\<close> of an anchor that is not filtered out, as the \<open>Url\<close> of the form for
  a form's \<^verbatim>\<open>action\<close>, and as the \<open>Url\<close> of the resource for the \<^verbatim>\<open>href\<close> of a \<^verbatim>\<open><link>\<close> or
  the \<^verbatim>\<open>src\<close> of an \<^verbatim>\<open><img>\<close>, \<^verbatim>\<open><script>\<close> or \<^verbatim>\<open><style>\<close>.
\<close>

theorem ToAbsUrl_empty_when_reference_fails_to_parse:
  "(url_Parse lib weburl = Inl err \<longrightarrow>
      ToAbsUrl lib baseurl weburl = []
      \<and> (s \<in> set (Find doc ''a'') \<and> Attr s ''href'' = Some weburl \<and> Attr s ''style'' = None
           \<longrightarrow> [] \<in> set (GetHrefs lib doc baseurl removeInvisibles))
      \<and> (s \<in> set (Find doc ''form'') \<and> Attr s ''action'' = Some weburl
           \<longrightarrow> [] \<in> form_Url ` set (GetFormUrls lib doc baseurl))
      \<and> (s \<in> set (Find doc tag) \<and> tag \<in> {''img'', ''script'', ''style''}
            \<and> Attr s ''src'' = Some weburl
           \<longrightarrow> \<lparr>Url = [], res_Type = (if tag = ''img'' then [] else attr_or_empty s ''type''),
                 Rel = [], Tag = tag\<rparr> \<in> set (GetRessources lib doc baseurl))
      \<and> (s \<in> set (Find doc ''link'') \<and> Attr s ''href'' = Some weburl
           \<longrightarrow> \<lparr>Url = [], res_Type = attr_or_empty s ''type'', Rel = attr_or_empty s ''rel'',
                 Tag = ''link''\<rparr> \<in> set (GetRessources lib doc baseurl)))
   \<and> (url_Parse lib weburl = Inr relurl \<longrightarrow>
        ToAbsUrl lib baseurl weburl = URL_String lib (ResolveReference lib baseurl relurl))"
proof (intro conjI impI)
  assume "url_Parse lib weburl = Inr relurl"
  then show "ToAbsUrl lib baseurl weburl = URL_String lib (ResolveReference lib baseurl relurl)"
    by (simp add: ToAbsUrl_def)
next
  assume bad: "url_Parse lib weburl = Inl err"
  then show abs: "ToAbsUrl lib baseurl weburl = []"
    by (simp add: ToAbsUrl_def)
  {
    assume h: "s \<in> set (Find doc ''a'') \<and> Attr s ''href'' = Some weburl \<and> Attr s ''style'' = None"
    have "ToAbsUrl lib baseurl weburl \<in> set (GetHrefs lib doc baseurl removeInvisibles)"
      unfolding GetHrefs_def set_GetHrefs_each
      by (rule UnI2, rule CollectI, rule exI [of _ weburl], rule exI [of _ s]) (simp add: h)
    then show "[] \<in> set (GetHrefs lib doc baseurl removeInvisibles)"
      by (simp only: abs)
  next
    assume "s \<in> set (Find doc ''form'') \<and> Attr s ''action'' = Some weburl"
    then show "[] \<in> form_Url ` set (GetFormUrls lib doc baseurl)"
      unfolding GetFormUrls_def GetFormUrls_each_map
      by (force simp: abs_attr_or_empty_def abs image_iff)
  next
    assume a: "s \<in> set (Find doc tag) \<and> tag \<in> {''img'', ''script'', ''style''}
            \<and> Attr s ''src'' = Some weburl"
    then consider "tag = ''img''" | "tag = ''script''" | "tag = ''style''" by auto
    then show "\<lparr>Url = [], res_Type = (if tag = ''img'' then [] else attr_or_empty s ''type''),
                 Rel = [], Tag = tag\<rparr> \<in> set (GetRessources lib doc baseurl)"
    proof cases
      case 1
      with a in_GetRessources_img [of s doc lib baseurl] show ?thesis
        by (simp add: abs_attr_or_empty_def abs)
    next
      case 2
      with a in_GetRessources_script [of s doc lib baseurl] show ?thesis
        by (simp add: abs_attr_or_empty_def abs)
    next
      case 3
      with a in_GetRessources_style [of s doc lib baseurl] show ?thesis
        by (simp add: abs_attr_or_empty_def abs)
    qed
  next
    assume "s \<in> set (Find doc ''link'') \<and> Attr s ''href'' = Some weburl"
    with in_GetRessources_link [of s doc lib baseurl]
    show "\<lparr>Url = [], res_Type = attr_or_empty s ''type'', Rel = attr_or_empty s ''rel'',
                 Tag = ''link''\<rparr> \<in> set (GetRessources lib doc baseurl)"
      by (simp add: abs_attr_or_empty_def abs)
  }
qed

lemma example_lib_sel:
  "url_Parse (example_lib d) = example_Parse"
  "ResolveReference (example_lib d) = example_Resolve"
  "URL_String (example_lib d) = example_String"
  "NewDocumentFromReader (example_lib d) body = Inr d"
  by (simp_all add: example_lib_def)

theorem ToAbsUrl_empty_when_reference_fails_to_parse_witness:
  "ToAbsUrl (example_lib []) (mkURL ''http'' ''ex.com'' ''/old'') ''%zz'' = []
   \<and> ToAbsUrl (example_lib []) (mkURL ''http'' ''ex.com'' ''/old'') ''/new'' = ''http://ex.com/new''
   \<and> [] \<in> set (GetHrefs (example_lib []) [Element ''a'' [(''href'', ''%zz'')] []]
                 (mkURL ''http'' ''ex.com'' ''/old'') True)
   \<and> [] \<in> form_Url ` set (GetFormUrls (example_lib []) [Element ''form'' [(''action'', ''%zz'')] []]
                 (mkURL ''http'' ''ex.com'' ''/old''))"
proof -
  have bad: "url_Parse (example_lib []) ''%zz''
               = Inl (UrlError ''parse %zz'' (OtherError ''invalid URL''))"
    by (simp add: example_lib_sel example_Parse_def example_URLs_def)
  have good: "url_Parse (example_lib []) ''/new'' = Inr (mkURL [] [] ''/new'')"
    by (simp add: example_lib_sel example_Parse_def example_URLs_def)
  have res: "URL_String (example_lib [])
               (ResolveReference (example_lib []) (mkURL ''http'' ''ex.com'' ''/old'')
                  (mkURL [] [] ''/new'')) = ''http://ex.com/new''"
    by (simp add: example_lib_sel example_Resolve_def example_String_def mkURL_def)
  have a: "Element ''a'' [(''href'', ''%zz'')] [] \<in> set (Find [Element ''a'' [(''href'', ''%zz'')] []] ''a'')
      \<and> Attr (Element ''a'' [(''href'', ''%zz'')] []) ''href'' = Some ''%zz''
      \<and> Attr (Element ''a'' [(''href'', ''%zz'')] []) ''style'' = None"
    by (simp add: Find_def)
  have f: "Element ''form'' [(''action'', ''%zz'')] []
        \<in> set (Find [Element ''form'' [(''action'', ''%zz'')] []] ''form'')
      \<and> Attr (Element ''form'' [(''action'', ''%zz'')] []) ''action'' = Some ''%zz''"
    by (simp add: Find_def)
  show ?thesis
    using ToAbsUrl_empty_when_reference_fails_to_parse
            [of "example_lib []" "''%zz''" _ "mkURL ''http'' ''ex.com'' ''/old''"
                "Element ''a'' [(''href'', ''%zz'')] []" "[Element ''a'' [(''href'', ''%zz'')] []]"
                True]
          ToAbsUrl_empty_when_reference_fails_to_parse
            [of "example_lib []" "''%zz''" _ "mkURL ''http'' ''ex.com'' ''/old''"
                "Element ''form'' [(''action'', ''%zz'')] []"
                "[Element ''form'' [(''action'', ''%zz'')] []]"]
          ToAbsUrl_empty_when_reference_fails_to_parse
            [of "example_lib []" "''/new''" _ "mkURL ''http'' ''ex.com'' ''/old''" _ _ _ _
                "mkURL [] [] ''/new''"]
          bad good res a f
    by metis
qed

section \<open>Properties of page assembly and fetching\<close>

lemma ContainsString_set: "ContainsString arr key \<longleftrightarrow> key \<in> set arr"
  by (induction arr) auto

lemma PageFromData_Response: "Response (PageFromData lib data url h) = Some PageResponse_zero"
  and PageFromData_Request: "Request (PageFromData lib data url h) = Some PageRequest_zero"
  by (simp_all add: PageFromData_def Let_def)

lemma PageFromResponse_res_Some:
  assumes "Response page0 = Some r0"
    and "hrefs = (case resp_Body res of
                  Inr body \<Rightarrow> Hrefs (RespInfo (PageFromData lib body (req_URL req) (IncludeHiddenLinks c)))
                | Inl err \<Rightarrow> Hrefs (RespInfo page0))"
    and "location = ToAbsUrl lib (req_URL req) (Header_Get (resp_Header res) ''Location'')"
  shows "\<exists>page. PageFromResponse_res lib c req res page0 = Some page
           \<and> Hrefs (RespInfo page) =
               (if 300 \<le> resp_StatusCode res \<and> resp_StatusCode res < 308 \<and> location \<notin> set hrefs
                then hrefs @ [location] else hrefs)
           \<and> map_option StatusCode (Response page) = Some (resp_StatusCode res)
           \<and> Request page = (case resp_Body res of
                  Inr body \<Rightarrow> Some PageRequest_zero | Inl err \<Rightarrow> Request page0)"
  using assms
  by (cases "resp_Body res")
     (auto simp: PageFromResponse_res_def LocationFromPage_def Let_def ContainsString_set
        PageFromData_Response PageFromData_Request)

text \<open>
  C4. A page assembled from a response carries the response's status code, and when that
  code is in \<open>[300, 308)\<close> the \<^verbatim>\<open>Location\<close> header, resolved by \<open>ToAbsUrl\<close> against the URL of
  the request, is appended to \<open>RespInfo.Hrefs\<close> unless it is already there; \<open>hrefs\<close> are the
  hyperlinks of the body, none if the body could not be read. For a status outside the
  range the hyperlinks are those of the body and nothing is added.
\<close>

theorem PageFromResponse_appends_redirect_location:
  assumes "hrefs = (case resp_Body res of
                  Inr body \<Rightarrow> Hrefs (RespInfo (PageFromData lib body (req_URL req) (IncludeHiddenLinks c)))
                | Inl err \<Rightarrow> [])"
    and "location = ToAbsUrl lib (req_URL req) (Header_Get (resp_Header res) ''Location'')"
  shows "\<exists>page w'. PageFromResponse lib sys c req (Some res) timeDur w = Some (page, w')
           \<and> map_option StatusCode (Response page) = Some (resp_StatusCode res)
           \<and> (300 \<le> resp_StatusCode res \<and> resp_StatusCode res < 308 \<longrightarrow>
                Hrefs (RespInfo page) = (if location \<in> set hrefs then hrefs else hrefs @ [location]))
           \<and> (\<not> (300 \<le> resp_StatusCode res \<and> resp_StatusCode res < 308) \<longrightarrow>
                Hrefs (RespInfo page) = hrefs)"
proof -
  let ?page0 = "Page_zero\<lparr>Response := Some PageResponse_zero, Request := Some PageRequest_zero\<rparr>"
  have h: "hrefs = (case resp_Body res of
                  Inr body \<Rightarrow> Hrefs (RespInfo (PageFromData lib body (req_URL req) (IncludeHiddenLinks c)))
                | Inl err \<Rightarrow> Hrefs (RespInfo ?page0))"
    using assms(1) by (simp add: Page_zero_def ResponseInfo_zero_def split: sum.splits)
  obtain page where p: "PageFromResponse_res lib c req res ?page0 = Some page"
    and hr: "Hrefs (RespInfo page) =
               (if 300 \<le> resp_StatusCode res \<and> resp_StatusCode res < 308 \<and> location \<notin> set hrefs
                then hrefs @ [location] else hrefs)"
    and st: "map_option StatusCode (Response page) = Some (resp_StatusCode res)"
    and rq: "Request page = (case resp_Body res of
                  Inr body \<Rightarrow> Some PageRequest_zero | Inl err \<Rightarrow> Request ?page0)"
    using PageFromResponse_res_Some [OF _ h assms(2), of PageResponse_zero] by auto
  have rq': "Request page = Some PageRequest_zero"
    using rq by (simp split: sum.splits)
  show ?thesis
    using p hr st rq'
    by (auto simp: PageFromResponse_def Let_def split: prod.splits)
qed


lemma example_sys_sel:
  "time_Now (example_sys answer universe) w = (int w * 1000000000, w + 1)"
  "Client_Do (example_sys answer universe) req w = (answer req, w)"
  "range_order (example_sys answer universe) m w = ([k \<leftarrow> universe. m k \<noteq> None], w)"
  by (simp_all add: example_sys_def)

theorem PageFromResponse_appends_redirect_location_witness:
  "(\<exists>page w'. PageFromResponse (example_lib []) (example_sys (\<lambda>req. (None, None)) []) NewCrawler
        \<lparr>req_Method = ''GET'', req_URL = mkURL ''http'' ''ex.com'' ''/old'', req_Header = [],
         req_Proto = ''HTTP/1.1'', req_ContentLength = 0\<rparr>
        (Some \<lparr>resp_StatusCode = 302, resp_Header = [(''Location'', [''/new''])],
               resp_Proto = ''HTTP/1.1'', resp_Body = Inr []\<rparr>) 0 0 = Some (page, w')
      \<and> Hrefs (RespInfo page) = [''http://ex.com/new''])
   \<and> (\<exists>page w'. PageFromResponse (example_lib []) (example_sys (\<lambda>req. (None, None)) []) NewCrawler
        \<lparr>req_Method = ''GET'', req_URL = mkURL ''http'' ''ex.com'' ''/old'', req_Header = [],
         req_Proto = ''HTTP/1.1'', req_ContentLength = 0\<rparr>
        (Some \<lparr>resp_StatusCode = 200, resp_Header = [(''Location'', [''/new''])],
               resp_Proto = ''HTTP/1.1'', resp_Body = Inr []\<rparr>) 0 0 = Some (page, w')
      \<and> Hrefs (RespInfo page) = [])"
proof -
  let ?req = "\<lparr>req_Method = ''GET'', req_URL = mkURL ''http'' ''ex.com'' ''/old'', req_Header = [],
         req_Proto = ''HTTP/1.1'', req_ContentLength = 0\<rparr>"
  have hrefs: "(case Inr [] of
                  Inr body \<Rightarrow> Hrefs (RespInfo (PageFromData (example_lib []) body
                               (mkURL ''http'' ''ex.com'' ''/old'') (IncludeHiddenLinks NewCrawler)))
                | Inl (err :: error) \<Rightarrow> []) = []"
    by (simp add: PageFromData_def example_lib_sel Let_def GetHrefs_def Find_def)
  have loc: "ToAbsUrl (example_lib []) (mkURL ''http'' ''ex.com'' ''/old'')
               (Header_Get [(''Location'', [''/new''])] ''Location'') = ''http://ex.com/new''"
    by (simp add: ToAbsUrl_def Header_Get_def example_lib_sel example_Parse_def example_URLs_def
          example_Resolve_def example_String_def mkURL_def)
  show ?thesis
    using PageFromResponse_appends_redirect_location
            [where hrefs = "[]" and location = "''http://ex.com/new''"
               and res = "\<lparr>resp_StatusCode = 302, resp_Header = [(''Location'', [''/new''])],
                         resp_Proto = ''HTTP/1.1'', resp_Body = Inr []\<rparr>"
               and lib = "example_lib []" and req = ?req and c = NewCrawler
               and sys = "example_sys (\<lambda>req. (None, None)) []" and timeDur = 0 and w = 0]
          PageFromResponse_appends_redirect_location
            [where hrefs = "[]" and location = "''http://ex.com/new''"
               and res = "\<lparr>resp_StatusCode = 200, resp_Header = [(''Location'', [''/new''])],
                         resp_Proto = ''HTTP/1.1'', resp_Body = Inr []\<rparr>"
               and lib = "example_lib []" and req = ?req and c = NewCrawler
               and sys = "example_sys (\<lambda>req. (None, None)) []" and timeDur = 0 and w = 0]
          hrefs loc
    by simp blast
qed

lemma PageFromResponse_nil_response:
  "PageFromResponse lib sys c req None timeDur w =
     Some (Page_zero\<lparr>CrawlTime := fst (time_Now sys w) div 1000000000,
                      URL := URL_String lib (req_URL req),
                      Uid := ToHash lib (URL_String lib (req_URL req)),
                      RespDuration := Seconds_times_1000 lib timeDur,
                      Response := Some PageResponse_zero,
                      Request := Some (PageRequest_zero
                                  \<lparr>preq_Header := req_Header req,
                                   preq_Proto := req_Proto req,
                                   preq_ContentLength := req_ContentLength req\<rparr>)\<rparr>,
           snd (time_Now sys w))"
  by (simp add: PageFromResponse_def Let_def split: prod.splits)

lemma PageFromResponse_total:
  "\<exists>page w'. PageFromResponse lib sys c req res timeDur w = Some (page, w')
      \<and> Error page = [] \<and> Response page \<noteq> None"
proof (cases res)
  case None
  then show ?thesis by (simp add: PageFromResponse_nil_response Page_zero_def)
next
  case (Some r)
  let ?page0 = "Page_zero\<lparr>Response := Some PageResponse_zero, Request := Some PageRequest_zero\<rparr>"
  have e0: "Error ?page0 = []" by (simp add: Page_zero_def)
  obtain page where p: "PageFromResponse_res lib c req r ?page0 = Some page"
    and st: "map_option StatusCode (Response page) = Some (resp_StatusCode r)"
    and rq: "Request page = (case resp_Body r of
                  Inr body \<Rightarrow> Some PageRequest_zero | Inl err \<Rightarrow> Request ?page0)"
    using PageFromResponse_res_Some
            [OF _ refl refl, where ?page0.0 = ?page0 and ?r0.0 = PageResponse_zero and res = r
               and lib = lib and req = req and c = c]
    by auto
  have rq': "Request page = Some PageRequest_zero"
    using rq by (simp split: sum.splits)
  have er: "Error page = []"
    using p
    by (cases "resp_Body r")
       (auto simp: PageFromResponse_res_def LocationFromPage_def Let_def PageFromData_Response
          PageFromData_def Page_zero_def split: if_splits sum.splits)
  show ?thesis
    using p st rq' er Some
    by (auto simp: PageFromResponse_def Let_def split: prod.splits)
qed

text \<open>
  C9. When the request cannot be constructed, \<open>GetPage\<close> returns a nil page and the
  error of \<^verbatim>\<open>http.NewRequest\<close>. Once the request is built, a failure of the client other
  than the blocked redirect returns a page whose \<open>Error\<close> is the message of the failure,
  with that error; and whatever \<open>GetPage\<close> returns then, the page is not nil and its
  \<open>Error\<close> is the message of the returned error, or empty when there is none.
\<close>

theorem GetPage_nil_page_on_request_construction_failure:
  "(NewRequest lib meth crawlUrl = Inl err \<longrightarrow>
      GetPage lib sys c crawlUrl meth w = Some ((None, Some err), snd (time_Now sys w)))
   \<and> (NewRequest lib meth crawlUrl = Inr req
        \<and> GetPage_headers (cw_Header c) req = Some req'
        \<and> Client_Do sys req' (snd (time_Now sys w)) = ((res, Some e), w1)
        \<and> not_blocked_redirect e \<longrightarrow>
      (\<exists>page w'. GetPage lib sys c crawlUrl meth w = Some ((Some page, Some e), w')
          \<and> Error page = error_Error e))
   \<and> (NewRequest lib meth crawlUrl = Inr req
        \<and> GetPage lib sys c crawlUrl meth w = Some ((p, perr), w2) \<longrightarrow>
      (\<exists>page. p = Some page
         \<and> Error page = (case perr of Some e \<Rightarrow> error_Error e | None \<Rightarrow> [])))"
proof (intro conjI impI)
  assume "NewRequest lib meth crawlUrl = Inl err"
  then show "GetPage lib sys c crawlUrl meth w = Some ((None, Some err), snd (time_Now sys w))"
    by (simp add: GetPage_def split: prod.splits)
next
  assume a: "NewRequest lib meth crawlUrl = Inr req
        \<and> GetPage_headers (cw_Header c) req = Some req'
        \<and> Client_Do sys req' (snd (time_Now sys w)) = ((res, Some e), w1)
        \<and> not_blocked_redirect e"
  obtain t0 w0 where t0: "time_Now sys w = (t0, w0)" by (cases "time_Now sys w")
  obtain t1 w1' where t1: "time_Now sys w1 = (t1, w1')" by (cases "time_Now sys w1")
  obtain page w' where p: "PageFromResponse lib sys c req' res (t1 - t0) w1' = Some (page, w')"
    and er: "Error page = []"
    using PageFromResponse_total
            [where lib = lib and sys = sys and c = c and req = req' and res = res
               and timeDur = "t1 - t0" and w = w1']
    by auto
  show "\<exists>page w'. GetPage lib sys c crawlUrl meth w = Some ((Some page, Some e), w')
          \<and> Error page = error_Error e"
    using a t0 t1 p by (simp add: GetPage_def Let_def)
next
  assume a: "NewRequest lib meth crawlUrl = Inr req
        \<and> GetPage lib sys c crawlUrl meth w = Some ((p, perr), w2)"
  obtain t0 w0 where t0: "time_Now sys w = (t0, w0)" by (cases "time_Now sys w")
  from a obtain req' where h: "GetPage_headers (cw_Header c) req = Some req'"
    by (auto simp: GetPage_def t0 split: option.splits)
  obtain res e w1 where d: "Client_Do sys req' w0 = ((res, e), w1)"
    by (metis prod.exhaust)
  obtain t1 w1' where t1: "time_Now sys w1 = (t1, w1')" by (cases "time_Now sys w1")
  obtain page w' where pg: "PageFromResponse lib sys c req' res (t1 - t0) w1' = Some (page, w')"
    and er: "Error page = []"
    using PageFromResponse_total
            [where lib = lib and sys = sys and c = c and req = req' and res = res
               and timeDur = "t1 - t0" and w = w1']
    by auto
  show "\<exists>page. p = Some page
         \<and> Error page = (case perr of Some e \<Rightarrow> error_Error e | None \<Rightarrow> [])"
    using a t0 h d t1 pg er
    by (auto simp: GetPage_def Let_def split: option.splits if_splits)
qed


lemma example_NewRequest:
  "NewRequest (example_lib d) method crawlUrl =
     (case example_Parse crawlUrl of
        Inl err \<Rightarrow> Inl err
      | Inr u \<Rightarrow> Inr \<lparr>req_Method = method, req_URL = u, req_Header = [],
                      req_Proto = ''HTTP/1.1'', req_ContentLength = 0\<rparr>)"
  by (simp add: example_lib_def)

theorem GetPage_nil_page_on_request_construction_failure_witness:
  "GetPage (example_lib [])
     (example_sys (\<lambda>req. (None, Some (UrlError ''Get http://ex.com/old: connection refused''
                                         (OtherError ''connection refused'')))) [])
     NewCrawler ''%zz'' ''GET'' 0
     = Some ((None, Some (UrlError ''parse %zz'' (OtherError ''invalid URL''))), 1)
   \<and> (\<exists>page w'.
        GetPage (example_lib [])
          (example_sys (\<lambda>req. (None, Some (UrlError ''Get http://ex.com/old: connection refused''
                                         (OtherError ''connection refused'')))) [])
          NewCrawler ''http://ex.com/old'' ''GET'' 0
        = Some ((Some page, Some (UrlError ''Get http://ex.com/old: connection refused''
                                    (OtherError ''connection refused''))), w')
        \<and> Error page = ''Get http://ex.com/old: connection refused'')"
proof -
  let ?e = "UrlError ''Get http://ex.com/old: connection refused'' (OtherError ''connection refused'')"
  let ?sys = "example_sys (\<lambda>req. (None, Some ?e)) []"
  let ?req = "\<lparr>req_Method = ''GET'', req_URL = mkURL ''http'' ''ex.com'' ''/old'', req_Header = [],
         req_Proto = ''HTTP/1.1'', req_ContentLength = 0\<rparr>"
  have bad: "NewRequest (example_lib []) ''GET'' ''%zz''
               = Inl (UrlError ''parse %zz'' (OtherError ''invalid URL''))"
    by (simp add: example_NewRequest example_Parse_def example_URLs_def)
  have good: "NewRequest (example_lib []) ''GET'' ''http://ex.com/old'' = Inr ?req"
    by (simp add: example_NewRequest example_Parse_def example_URLs_def)
  have hd: "GetPage_headers (cw_Header NewCrawler) ?req
              = Some (?req\<lparr>req_Header := [(''User-Agent'', [headerUserAgentChrome])]\<rparr>)"
    by (simp add: NewCrawler_def Header_Set_def)
  have d: "Client_Do ?sys (?req\<lparr>req_Header := [(''User-Agent'', [headerUserAgentChrome])]\<rparr>)
             (snd (time_Now ?sys 0)) = ((None, Some ?e), 1)"
    by (simp add: example_sys_sel)
  have nb: "not_blocked_redirect ?e" by simp
  have t: "snd (time_Now ?sys 0) = 1" by (simp add: example_sys_sel)
  show ?thesis
    using GetPage_nil_page_on_request_construction_failure
            [where lib = "example_lib []" and sys = ?sys and c = NewCrawler
               and crawlUrl = "''%zz''" and meth = "''GET''" and w = 0
               and err = "UrlError ''parse %zz'' (OtherError ''invalid URL'')"]
          GetPage_nil_page_on_request_construction_failure
            [where lib = "example_lib []" and sys = ?sys and c = NewCrawler
               and crawlUrl = "''http://ex.com/old''" and meth = "''GET''" and w = 0
               and req = ?req and e = ?e and res = None and ?w1.0 = 1
               and req' = "?req\<lparr>req_Header := [(''User-Agent'', [headerUserAgentChrome])]\<rparr>"]
          bad good hd d nb t
    by simp
qed

section \<open>Properties of resume\<close>

lemma AddCrawledLinks_Links:
  "Links (AddCrawledLinks links cw) u = (if u \<in> set links then Some True else Links cw u)"
  by (induction links arbitrary: cw) auto

lemma AddCrawledLinks_hooks:
  "BeforeCrawlFn (AddCrawledLinks links cw) = BeforeCrawlFn cw"
  "AfterCrawlFn (AddCrawledLinks links cw) = AfterCrawlFn cw"
  by (induction links arbitrary: cw) auto

lemma AddAllLinks_hooks:
  "BeforeCrawlFn (AddAllLinks links cw) = BeforeCrawlFn cw"
  "AfterCrawlFn (AddAllLinks links cw) = AfterCrawlFn cw"
  by (induction links arbitrary: cw) (auto simp: Let_def)

lemma resume_record_hooks:
  "BeforeCrawlFn (resume_record cw p) = BeforeCrawlFn cw"
  "AfterCrawlFn (resume_record cw p) = AfterCrawlFn cw"
  by (simp_all add: resume_record_def AddAllLinks_hooks AddCrawledLinks_hooks)

lemma foldl_resume_record_hooks:
  "BeforeCrawlFn (foldl resume_record cw ps) = BeforeCrawlFn cw"
  "AfterCrawlFn (foldl resume_record cw ps) = AfterCrawlFn cw"
  by (induction ps arbitrary: cw) (simp_all add: resume_record_hooks)

lemma resume_url_cong: "BeforeCrawlFn cw' = BeforeCrawlFn cw \<Longrightarrow> resume_url cw' p = resume_url cw p"
  by (simp add: resume_url_def)

lemma resume_links_cong: "AfterCrawlFn cw' = AfterCrawlFn cw \<Longrightarrow> resume_links cw' p = resume_links cw p"
  by (simp add: resume_links_def)

lemma LoadPages_range_load_all:
  "LoadPages_range lib sys files readCount cw w =
     (case load_all lib sys files w of
        (ps, e, w') \<Rightarrow> ((readCount + length ps, e), foldl resume_record cw ps, w'))"
proof (induction files arbitrary: readCount cw w)
  case Nil
  show ?case by simp
next
  case (Cons fl files)
  show ?case
  proof (cases "LoadPage lib sys fl False w")
    case (Pair r w1)
    show ?thesis
    proof (cases r)
      case (Inl err)
      then show ?thesis using Pair by simp
    next
      case (Inr p)
      have step: "AddAllLinks
              (case AfterCrawlFn cw of None \<Rightarrow> Hrefs (RespInfo p) | Some g \<Rightarrow> fst (g p None))
              (AddCrawledLinks
                 [case BeforeCrawlFn cw of None \<Rightarrow> URL p | Some f \<Rightarrow> fst (f (URL p))] cw)
             = resume_record cw p"
        by (simp add: resume_record_def resume_url_def resume_links_def)
      have "LoadPages_range lib sys (fl # files) readCount cw w =
              LoadPages_range lib sys files (readCount + 1) (resume_record cw p) w1"
        using Pair Inr step [symmetric] by (simp add: Let_def)
      then show ?thesis
        using Pair Inr by (simp add: Cons.IH split: prod.splits)
    qed
  qed
qed

lemma IsCrawled_resume_record: "IsCrawled cw u \<Longrightarrow> IsCrawled (resume_record cw p) u"
  by (auto simp: resume_record_def IsCrawled_def AddAllLinks_Links AddCrawledLinks_Links
        split: option.splits)

lemma dom_resume_record: "dom (Links cw) \<subseteq> dom (Links (resume_record cw p))"
  by (auto simp: resume_record_def AddAllLinks_Links AddCrawledLinks_Links)

lemma IsCrawled_foldl_resume: "IsCrawled cw u \<Longrightarrow> IsCrawled (foldl resume_record cw ps) u"
  by (induction ps arbitrary: cw) (simp_all add: IsCrawled_resume_record)

lemma dom_foldl_resume: "dom (Links cw) \<subseteq> dom (Links (foldl resume_record cw ps))"
proof (induction ps arbitrary: cw)
  case Nil
  show ?case by simp
next
  case (Cons p ps)
  show ?case using dom_resume_record [of cw p] Cons.IH [of "resume_record cw p"] by auto
qed

lemma resume_record_marks:
  "IsCrawled (resume_record cw p) (resume_url cw p)
   \<and> set (resume_links cw p) \<subseteq> dom (Links (resume_record cw p))"
  by (auto simp: resume_record_def IsCrawled_def AddAllLinks_Links AddCrawledLinks_Links)

lemma foldl_resume_marks:
  "p \<in> set ps \<Longrightarrow>
     IsCrawled (foldl resume_record cw ps) (resume_url cw p)
     \<and> set (resume_links cw p) \<subseteq> dom (Links (foldl resume_record cw ps))"
proof (induction ps arbitrary: cw)
  case Nil
  then show ?case by simp
next
  case (Cons q ps)
  show ?case
  proof (cases "p = q")
    case True
    have "IsCrawled (foldl resume_record (resume_record cw p) ps) (resume_url cw p)"
      using resume_record_marks [of cw p] by (simp add: IsCrawled_foldl_resume)
    moreover have "set (resume_links cw p) \<subseteq> dom (Links (foldl resume_record (resume_record cw p) ps))"
      using resume_record_marks [of cw p] dom_foldl_resume [of "resume_record cw p" ps] by blast
    ultimately show ?thesis using True by simp
  next
    case False
    then have "p \<in> set ps" using Cons.prems by simp
    from Cons.IH [OF this, of "resume_record cw q"] show ?thesis
      by (simp add: resume_url_cong [OF resume_record_hooks(1)]
            resume_links_cong [OF resume_record_hooks(2)])
  qed
qed

lemma load_all_count:
  "load_all lib sys files w = (ps, e, w') \<Longrightarrow>
     (case e of
        None \<Rightarrow> length ps = length files
      | Some err \<Rightarrow> length ps < length files
                    \<and> (\<exists>w1. fst (LoadPage lib sys (files ! length ps) False w1) = Inl err))"
proof (induction files arbitrary: w ps e w')
  case Nil
  then show ?case by simp
next
  case (Cons fl files)
  show ?case
  proof (cases "LoadPage lib sys fl False w")
    case (Pair r w1)
    show ?thesis
    proof (cases r)
      case (Inl err)
      then have "fst (LoadPage lib sys fl False w) = Inl err" using Pair by simp
      then have "\<exists>w1. fst (LoadPage lib sys fl False w1) = Inl err" by blast
      then show ?thesis using Pair Inl Cons.prems by auto
    next
      case (Inr p)
      obtain ps1 e1 w2 where l: "load_all lib sys files w1 = (ps1, e1, w2)"
        by (metis prod.exhaust)
      from Cons.IH [OF l] Cons.prems Pair Inr l show ?thesis
        by (auto split: option.splits)
    qed
  qed
qed


lemma GetPageInfoFiles_range_map:
  "GetPageInfoFiles_range lib folder files paths =
     paths @ map (path_Join lib folder) [name \<leftarrow> files. HasSuffix name ''.httpi'']"
  by (induction files arbitrary: paths) (simp_all add: Let_def)

text \<open>
  C7. When the folder can be listed, \<open>LoadPages\<close> loads its \<^verbatim>\<open>.httpi\<close> files in the order of
  the listing and stops at the first that fails to load, returning that error and the
  number of records loaded before it (all of them, and no error, when none fails). Each
  record loaded before that is replayed into the frontier in order: its URL as recomputed
  by the pre-fetch hook is marked visited and every link recomputed by the post-fetch
  hook is added, whatever \<open>ScopeToDomain\<close> says; the visited mark and the keys are still
  there at the end.
\<close>

theorem LoadPages_replays_records_until_first_failure:
  assumes "folderpath \<noteq> []"
    and "ReadDir sys folderpath w = (Inr names, w0)"
    and "files = map (path_Join lib folderpath) [name \<leftarrow> names. HasSuffix name ''.httpi'']"
    and "load_all lib sys files w0 = (ps, e, w1)"
  shows "LoadPages lib sys folderpath cw w
           = Returns ((length ps, e), foldl resume_record cw ps, w1)
         \<and> (\<forall>p \<in> set ps.
               IsCrawled (foldl resume_record cw ps) (resume_url cw p)
               \<and> set (resume_links cw p) \<subseteq> dom (Links (foldl resume_record cw ps)))
         \<and> (case e of
               None \<Rightarrow> length ps = length files
             | Some err \<Rightarrow>
                 length ps < length files
                 \<and> (\<exists>w'. fst (LoadPage lib sys (files ! length ps) False w') = Inl err))"
proof -
  have "GetPageInfoFiles lib sys folderpath w = ((files, None), w0)"
    using assms(2,3) by (simp add: GetPageInfoFiles_def GetPageInfoFiles_range_map)
  then have "LoadPages lib sys folderpath cw w
           = Returns ((length ps, e), foldl resume_record cw ps, w1)"
    using assms(1,4) by (simp add: LoadPages_def LoadPages_range_load_all)
  moreover have "\<forall>p \<in> set ps.
               IsCrawled (foldl resume_record cw ps) (resume_url cw p)
               \<and> set (resume_links cw p) \<subseteq> dom (Links (foldl resume_record cw ps))"
    using foldl_resume_marks by blast
  ultimately show ?thesis
    using load_all_count [OF assms(4)] by blast
qed

theorem LoadPages_replays_records_until_first_failure_witness:
  "LoadPages
     ((example_lib [])\<lparr>json_Unmarshal := (\<lambda>content.
         if content = ''A''
         then Inr (Page_zero\<lparr>URL := ''http://a.example.com/x'',
                             RespInfo := ResponseInfo_zero\<lparr>Hrefs := [''http://b.other.com/z'']\<rparr>\<rparr>)
         else Inl (OtherError ''unexpected end of JSON input''))\<rparr>)
     ((example_sys (\<lambda>req. (None, None)) [])
        \<lparr>ReadDir := (\<lambda>folder w. (Inr [''1.httpi'', ''1.respbin'', ''2.httpi'', ''3.httpi''], w)),
         ReadFile := (\<lambda>file w. (if file = ''storage/1.httpi'' then Inr ''A''
                                 else if file = ''storage/2.httpi'' then Inr ''B''
                                 else Inl (OtherError ''no such file or directory''), w))\<rparr>)
     ''storage'' (NewCrawler\<lparr>ScopeToDomain := True\<rparr>) 0
   = Returns ((1, Some (OtherError ''unexpected end of JSON input'')),
        NewCrawler\<lparr>ScopeToDomain := True,
                    Links := [''http://a.example.com/x'' \<mapsto> True,
                              ''http://b.other.com/z'' \<mapsto> False]\<rparr>, 0)"
proof -
  let ?pageA = "Page_zero\<lparr>URL := ''http://a.example.com/x'',
                             RespInfo := ResponseInfo_zero\<lparr>Hrefs := [''http://b.other.com/z'']\<rparr>\<rparr>"
  let ?lib = "(example_lib [])\<lparr>json_Unmarshal := (\<lambda>content.
         if content = ''A'' then Inr ?pageA
         else Inl (OtherError ''unexpected end of JSON input''))\<rparr>"
  let ?sys = "(example_sys (\<lambda>req. (None, None)) [])
        \<lparr>ReadDir := (\<lambda>folder w. (Inr [''1.httpi'', ''1.respbin'', ''2.httpi'', ''3.httpi''], w)),
         ReadFile := (\<lambda>file w. (if file = ''storage/1.httpi'' then Inr ''A''
                                 else if file = ''storage/2.httpi'' then Inr ''B''
                                 else Inl (OtherError ''no such file or directory''), w))\<rparr>"
  let ?files = "[''storage/1.httpi'', ''storage/2.httpi'', ''storage/3.httpi'']"
  have dir: "ReadDir ?sys ''storage'' (0::nat)
               = (Inr [''1.httpi'', ''1.respbin'', ''2.httpi'', ''3.httpi''], 0)"
    by simp
  have files: "?files = map (path_Join ?lib ''storage'')
                 [name \<leftarrow> [''1.httpi'', ''1.respbin'', ''2.httpi'', ''3.httpi''].
                    HasSuffix name ''.httpi'']"
    by (simp add: HasSuffix_def example_lib_def)
  have load: "load_all ?lib ?sys ?files (0::nat)
                = ([?pageA], Some (OtherError ''unexpected end of JSON input''), 0)"
    by (simp add: LoadPage_def)
  have ne: "''storage'' \<noteq> []" by simp
  have r: "foldl resume_record (NewCrawler\<lparr>ScopeToDomain := True\<rparr>) [?pageA]
             = NewCrawler\<lparr>ScopeToDomain := True,
                    Links := [''http://a.example.com/x'' \<mapsto> True,
                              ''http://b.other.com/z'' \<mapsto> False]\<rparr>"
    by (simp add: resume_record_def resume_url_def resume_links_def NewCrawler_def
          Page_zero_def ResponseInfo_zero_def IsCrawled_def Let_def)
  show ?thesis
    using LoadPages_replays_records_until_first_failure
            [OF ne dir files load, where cw = "NewCrawler\<lparr>ScopeToDomain := True\<rparr>"]
    by (simp only: r list.size) simp
qed

section \<open>Properties of the crawl loop\<close>

lemma rewriting_turn_first:
  "FetchSites_turn (example_lib []) (example_sys (\<lambda>req. (None, None)) [''a'', ''b'']) None
     (False, rewriting_crawler, 0)
   = Continue (False, rewriting_crawler\<lparr>Links := [''a'' \<mapsto> False, ''b'' \<mapsto> True]\<rparr>, 0)"
  by (auto simp: GetNextLink_def example_sys_sel rewriting_crawler_def
        rewriting_hook_def example_lib_sel example_Parse_def example_URLs_def mkURL_def
        IsValidScheme_def NewCrawler_def fun_upd_twist)

lemma rewriting_turn_again:
  "FetchSites_turn (example_lib []) (example_sys (\<lambda>req. (None, None)) [''a'', ''b'']) None
     (False, rewriting_crawler\<lparr>Links := [''a'' \<mapsto> False, ''b'' \<mapsto> True]\<rparr>, 0)
   = Continue (False, rewriting_crawler\<lparr>Links := [''a'' \<mapsto> False, ''b'' \<mapsto> True]\<rparr>, 0)"
  by (auto simp: GetNextLink_def example_sys_sel rewriting_crawler_def
        rewriting_hook_def example_lib_sel example_Parse_def example_URLs_def mkURL_def
        IsValidScheme_def NewCrawler_def fun_upd_twist)

lemma rewriting_loop_no_result:
  assumes "FetchSites_loop lib sys startUrl state = Some y"
  shows "\<not> (lib = example_lib [] \<and> sys = example_sys (\<lambda>req. (None, None)) [''a'', ''b'']
            \<and> startUrl = None
            \<and> (state = (False, rewriting_crawler, 0)
                \<or> state = (False, rewriting_crawler\<lparr>Links := [''a'' \<mapsto> False, ''b'' \<mapsto> True]\<rparr>, 0)))"
proof (rule FetchSites_loop.raw_induct
         [where P = "\<lambda>l s st x y. \<not> (l = example_lib []
            \<and> s = example_sys (\<lambda>req. (None, None)) [''a'', ''b''] \<and> st = None
            \<and> (x = (False, rewriting_crawler, 0)
                \<or> x = (False, rewriting_crawler\<lparr>Links := [''a'' \<mapsto> False, ''b'' \<mapsto> True]\<rparr>, 0)))",
          OF _ assms])
  fix loop l s st x r
  assume IH: "\<And>l s st x r. loop l s st x = Some r \<Longrightarrow>
           \<not> (l = example_lib [] \<and> s = example_sys (\<lambda>req. (None, None)) [''a'', ''b'']
              \<and> st = None
              \<and> (x = (False, rewriting_crawler, 0)
                  \<or> x = (False, rewriting_crawler\<lparr>Links := [''a'' \<mapsto> False, ''b'' \<mapsto> True]\<rparr>, 0)))"
    and eq: "(case FetchSites_turn l s st x of
                Continue x' \<Rightarrow> loop l s st x' | Break r \<Rightarrow> Some r) = Some r"
  show "\<not> (l = example_lib [] \<and> s = example_sys (\<lambda>req. (None, None)) [''a'', ''b'']
              \<and> st = None
              \<and> (x = (False, rewriting_crawler, 0)
                  \<or> x = (False, rewriting_crawler\<lparr>Links := [''a'' \<mapsto> False, ''b'' \<mapsto> True]\<rparr>, 0)))"
  proof
    assume a: "l = example_lib [] \<and> s = example_sys (\<lambda>req. (None, None)) [''a'', ''b'']
              \<and> st = None
              \<and> (x = (False, rewriting_crawler, 0)
                  \<or> x = (False, rewriting_crawler\<lparr>Links := [''a'' \<mapsto> False, ''b'' \<mapsto> True]\<rparr>, 0))"
    then have "FetchSites_turn l s st x
                 = Continue (False, rewriting_crawler\<lparr>Links := [''a'' \<mapsto> False, ''b'' \<mapsto> True]\<rparr>, 0)"
      using rewriting_turn_first rewriting_turn_again by auto
    with eq have "loop l s st
                      (False, rewriting_crawler\<lparr>Links := [''a'' \<mapsto> False, ''b'' \<mapsto> True]\<rparr>, 0) = Some r"
      by simp
    from IH [OF this] a show False by simp
  qed
qed

text \<open>
  C8, as the claim states it, fails: with a pre-fetch hook that rewrites the URL, a turn
  marks the rewritten URL visited and not the selected one. On a frontier with the one
  unvisited entry \<^verbatim>\<open>a\<close>, a hook that returns \<^verbatim>\<open>b\<close> and no link ever discovered, every turn
  selects \<^verbatim>\<open>a\<close> again, and \<open>FetchSites\<close> has no result.
\<close>

theorem FetchSites_rewriting_hook_runs_forever:
  "FetchSites (example_lib []) (example_sys (\<lambda>req. (None, None)) [''a'', ''b'']) None
     rewriting_crawler 0 = None"
proof (cases "FetchSites (example_lib []) (example_sys (\<lambda>req. (None, None)) [''a'', ''b'']) None
     rewriting_crawler 0")
  case None
  then show ?thesis .
next
  case (Some y)
  then have "FetchSites_loop (example_lib []) (example_sys (\<lambda>req. (None, None)) [''a'', ''b''])
               None (False, rewriting_crawler, 0) = Some y"
    by (simp add: FetchSites_def)
  from rewriting_loop_no_result [OF this] show ?thesis by simp
qed


lemma GetNextLink_range_found:
  "GetNextLink_range c keys = (u, True) \<Longrightarrow> Links c u = Some False"
  by (induction keys) (auto split: option.splits if_splits)

lemma GetNextLink_range_not_found:
  "GetNextLink_range c keys = (u, False) \<Longrightarrow> k \<in> set keys \<Longrightarrow> Links c k \<noteq> Some False"
  by (induction keys) (auto split: option.splits if_splits)

lemma AddAllLinks_true_iff:
  "Links (AddAllLinks links c) u = Some True \<longleftrightarrow> Links c u = Some True"
  by (simp add: AddAllLinks_Links)

lemma AddLinksMatchingDomain_true_iff:
  "Links (AddLinksMatchingDomain lib links startUrl c) u = Some True \<longleftrightarrow> Links c u = Some True"
  by (simp add: AddLinksMatchingDomain_filter AddAllLinks_Links)

lemma dom_AddLinksMatchingDomain:
  "dom (Links (AddLinksMatchingDomain lib links startUrl c)) \<subseteq> dom (Links c) \<union> set links"
  by (auto simp: AddLinksMatchingDomain_filter AddAllLinks_Links split: if_splits)

lemma AddLinksMatchingDomain_only_Links:
  "AddLinksMatchingDomain lib links startUrl c
     = c\<lparr>Links := Links (AddLinksMatchingDomain lib links startUrl c)\<rparr>"
  unfolding AddLinksMatchingDomain_filter by (rule AddAllLinks_more)

lemma FetchSites_select_found:
  assumes "FetchSites_select lib sys startUrl (first, c, w) = (urlStr, True, f1, w0)"
    and "first \<Longrightarrow> \<exists>u. startUrl = Some u \<and> Links c (URL_String lib u) = Some False"
  shows "\<not> f1 \<and> Links c urlStr = Some False"
proof (cases "\<not> first \<or> startUrl = None")
  case True
  then have "\<not> first" using assms(2) by auto
  moreover have "\<exists>keys. GetNextLink_range c keys = (urlStr, True)"
    using assms(1) True by (auto simp: GetNextLink_def split: prod.splits)
  ultimately show ?thesis
    using assms(1) True GetNextLink_range_found by (auto split: prod.splits)
next
  case False
  then show ?thesis using assms by (auto split: option.splits)
qed

lemma FetchSites_select_not_found:
  assumes "FetchSites_select lib sys startUrl (first, c, w) = (urlStr, False, f1, w0)"
    and "dom (Links c) \<subseteq> set (fst (range_order sys (Links c) w))"
    and "first \<Longrightarrow> startUrl \<noteq> None"
  shows "Links c u \<noteq> Some False"
proof -
  have "\<not> first \<or> startUrl = None"
    using assms(1) by (auto split: if_splits option.splits)
  then have "GetNextLink_range c (fst (range_order sys (Links c) w)) = (urlStr, False)"
    using assms(1) by (auto simp: GetNextLink_def split: prod.splits)
  from GetNextLink_range_not_found [OF this] assms(2) show ?thesis
    by (auto simp: dom_def)
qed

lemma FetchSites_fetch_Continue:
  assumes "FetchSites_fetch lib sys startUrl f1 c1 urlStr w0 = Continue (first', c', w')"
  shows "first' = f1
         \<and> (\<exists>page err w1 L.
               GetPage lib sys c1 urlStr ''GET'' w0 = Some ((Some page, err), w1)
               \<and> c' = c1\<lparr>Links := L, PageCount := (PageCount c1 + 1) mod 2 ^ 64\<rparr>
               \<and> (\<forall>u. L u = Some True \<longleftrightarrow> Links c1 u = Some True)
               \<and> dom L \<subseteq> dom (Links c1)
                    \<union> set (case AfterCrawlFn c1 of
                             Some g \<Rightarrow> fst (g page err)
                           | None \<Rightarrow> Hrefs (RespInfo page)))"
proof -
  from assms obtain page err w1 w2 where
    gp: "GetPage lib sys c1 urlStr ''GET'' w0 = Some ((Some page, err), w1)"
    and out: "Continue (f1,
               (let cw = c1\<lparr>PageCount := (PageCount c1 + 1) mod 2 ^ 64\<rparr>
                in if startUrl \<noteq> None \<and> ScopeToDomain cw
                   then (case startUrl of
                           Some u \<Rightarrow> AddLinksMatchingDomain lib
                              (case AfterCrawlFn c1 of
                                 Some g \<Rightarrow> fst (g page err)
                               | None \<Rightarrow> Hrefs (RespInfo page)) u cw
                         | None \<Rightarrow> cw)
                   else AddAllLinks (case AfterCrawlFn c1 of
                                 Some g \<Rightarrow> fst (g page err)
                               | None \<Rightarrow> Hrefs (RespInfo page)) cw), w2)
             = Continue (first', c', w')"
    by (auto simp: FetchSites_fetch_def Let_def split: option.splits exec.splits prod.splits)
  define links where "links = (case AfterCrawlFn c1 of
                                 Some g \<Rightarrow> fst (g page err)
                               | None \<Rightarrow> Hrefs (RespInfo page))"
  define c2 where "c2 = c1\<lparr>PageCount := (PageCount c1 + 1) mod 2 ^ 64\<rparr>"
  have c': "c' = (if startUrl \<noteq> None \<and> ScopeToDomain c2
                   then (case startUrl of
                           Some u \<Rightarrow> AddLinksMatchingDomain lib links u c2
                         | None \<Rightarrow> c2)
                   else AddAllLinks links c2)" and f': "first' = f1"
    using out unfolding links_def [symmetric] c2_def [symmetric] by (simp_all add: Let_def)
  have c2L: "Links c2 = Links c1" by (simp add: c2_def)
  have "\<exists>L. c' = c2\<lparr>Links := L\<rparr> \<and> (\<forall>u. L u = Some True \<longleftrightarrow> Links c2 u = Some True)
            \<and> dom L \<subseteq> dom (Links c2) \<union> set links"
  proof (cases "startUrl \<noteq> None \<and> ScopeToDomain c2")
    case True
    then obtain u where u: "startUrl = Some u" by auto
    have "c' = AddLinksMatchingDomain lib links u c2" using c' True u by auto
    then show ?thesis
      using AddLinksMatchingDomain_only_Links [of lib links u c2]
        AddLinksMatchingDomain_true_iff [of lib links u c2]
        dom_AddLinksMatchingDomain [of lib links u c2]
      by (intro exI [of _ "Links (AddLinksMatchingDomain lib links u c2)"]) simp
  next
    case False
    then have "c' = AddAllLinks links c2" using c' by auto
    then show ?thesis
      using AddAllLinks_more [of links c2] AddAllLinks_true_iff [of links c2]
        dom_AddAllLinks [of links c2]
      by (intro exI [of _ "Links (AddAllLinks links c2)"]) simp
  qed
  then obtain L where L: "c' = c2\<lparr>Links := L\<rparr>"
    and Lt: "\<forall>u. L u = Some True \<longleftrightarrow> Links c2 u = Some True"
    and Ld: "dom L \<subseteq> dom (Links c2) \<union> set links"
    by blast
  have "c' = c1\<lparr>Links := L, PageCount := (PageCount c1 + 1) mod 2 ^ 64\<rparr>"
    using L by (simp add: c2_def)
  then show ?thesis
    using gp f' Lt Ld unfolding c2L links_def by blast
qed

text \<open>What one turn that continues does to the crawler.\<close>

lemma FetchSites_turn_Continue:
  assumes turn: "FetchSites_turn lib sys startUrl (first, c, w) = Continue (first', c', w')"
    and hook: "\<And>f u. BeforeCrawlFn c = Some f \<Longrightarrow> snd (f u) \<noteq> None \<or> fst (f u) = u"
    and first: "first \<Longrightarrow> \<exists>u. startUrl = Some u \<and> Links c (URL_String lib u) = Some False"
  shows "\<exists>urlStr L n. Links c urlStr = Some False \<and> \<not> first'
           \<and> c' = c\<lparr>Links := L, PageCount := n\<rparr>
           \<and> (\<forall>u. L u = Some True \<longleftrightarrow> u = urlStr \<or> Links c u = Some True)
           \<and> (L = (Links c)(urlStr \<mapsto> True)
               \<or> (\<exists>page err w0 w1.
                     GetPage lib sys (c\<lparr>Links := (Links c)(urlStr \<mapsto> True)\<rparr>) urlStr ''GET'' w0
                       = Some ((Some page, err), w1)
                     \<and> dom L \<subseteq> dom (Links c)
                          \<union> set (case AfterCrawlFn c of
                                   Some g \<Rightarrow> fst (g page err)
                                 | None \<Rightarrow> Hrefs (RespInfo page))))"
proof -
  obtain urlStr found f1 w0 where
    sel: "FetchSites_select lib sys startUrl (first, c, w) = (urlStr, found, f1, w0)"
    by (metis prod.exhaust)
  have found: "found"
    using turn sel by (auto simp del: FetchSites_select.simps split: if_splits)
  with sel first have f1: "\<not> f1" and unv: "Links c urlStr = Some False"
    using FetchSites_select_found [of lib sys startUrl first c w urlStr f1 w0] by auto
  define hk where "hk = (case BeforeCrawlFn c of Some f \<Rightarrow> f urlStr | None \<Rightarrow> (urlStr, None))"
  have hk: "hk = (urlStr, None)"
  proof (cases "BeforeCrawlFn c")
    case None
    then show ?thesis by (simp add: hk_def)
  next
    case (Some f)
    have "snd (f urlStr) = None"
      using turn found sel
      by (auto simp: Some simp del: FetchSites_select.simps split: prod.splits option.splits)
    with hook [OF Some, of urlStr] show ?thesis
      by (simp add: hk_def Some prod_eq_iff)
  qed
  define c1 where "c1 = c\<lparr>Links := (Links c)(urlStr \<mapsto> True)\<rparr>"
  have rest: "(case url_Parse lib urlStr of
                 Inl err \<Rightarrow> Continue (f1, c1, w0)
               | Inr nextUrl \<Rightarrow>
                   if \<not> IsValidScheme c1 nextUrl then Continue (f1, c1, w0)
                   else FetchSites_fetch lib sys startUrl f1 c1 urlStr w0)
              = Continue (first', c', w')"
    using turn found hk sel unfolding hk_def c1_def
    by (simp del: FetchSites_select.simps add: Let_def)
  have stay: ?thesis if "first' = f1" "c' = c1"
  proof -
    have "c' = c\<lparr>Links := (Links c)(urlStr \<mapsto> True), PageCount := PageCount c\<rparr>"
      using that by (simp add: c1_def)
    then show ?thesis
      using unv f1 that(1)
      by (intro exI [of _ urlStr] exI [of _ "(Links c)(urlStr \<mapsto> True)"]
            exI [of _ "PageCount c"]) auto
  qed
  show ?thesis
  proof (cases "url_Parse lib urlStr")
    case (Inl err)
    with rest show ?thesis by (intro stay) simp_all
  next
    case (Inr nextUrl)
    show ?thesis
    proof (cases "IsValidScheme c1 nextUrl")
      case False
      with rest Inr show ?thesis by (intro stay) simp_all
    next
      case True
      with rest Inr have "FetchSites_fetch lib sys startUrl f1 c1 urlStr w0 = Continue (first', c', w')"
        by simp
      from FetchSites_fetch_Continue [OF this] obtain page err w1 L where
        f': "first' = f1"
        and gp: "GetPage lib sys c1 urlStr ''GET'' w0 = Some ((Some page, err), w1)"
        and c': "c' = c1\<lparr>Links := L, PageCount := (PageCount c1 + 1) mod 2 ^ 64\<rparr>"
        and Lt: "\<forall>u. L u = Some True \<longleftrightarrow> Links c1 u = Some True"
        and Ld: "dom L \<subseteq> dom (Links c1)
                    \<union> set (case AfterCrawlFn c1 of
                             Some g \<Rightarrow> fst (g page err)
                           | None \<Rightarrow> Hrefs (RespInfo page))"
        by blast
      have c'eq: "c' = c\<lparr>Links := L, PageCount := (PageCount c + 1) mod 2 ^ 64\<rparr>"
        using c' by (simp add: c1_def)
      have Ld': "dom L \<subseteq> dom (Links c)
                    \<union> set (case AfterCrawlFn c of
                             Some g \<Rightarrow> fst (g page err)
                           | None \<Rightarrow> Hrefs (RespInfo page))"
        using Ld unv by (auto simp: c1_def)
      have Lt': "\<forall>u. L u = Some True \<longleftrightarrow> u = urlStr \<or> Links c u = Some True"
        using Lt by (auto simp: c1_def)
      have "\<exists>page err w0 w1.
                     GetPage lib sys (c\<lparr>Links := (Links c)(urlStr \<mapsto> True)\<rparr>) urlStr ''GET'' w0
                       = Some ((Some page, err), w1)
                     \<and> dom L \<subseteq> dom (Links c)
                          \<union> set (case AfterCrawlFn c of
                                   Some g \<Rightarrow> fst (g page err)
                                 | None \<Rightarrow> Hrefs (RespInfo page))"
        using gp Ld' unfolding c1_def by blast
      then show ?thesis
        using unv f1 f' c'eq Lt' by blast
    qed
  qed
qed

lemma FetchSites_fetch_Break:
  "FetchSites_fetch lib sys startUrl f1 c1 urlStr w0 = Break r \<Longrightarrow> r = Panics \<or> r = Exits"
  by (auto simp: FetchSites_fetch_def Let_def split: option.splits exec.splits prod.splits)

lemma FetchSites_turn_Break_nil:
  assumes "FetchSites_turn lib sys startUrl (first, c, w) = Break (Returns (None, c', w'))"
  shows "c' = c \<and> (\<exists>urlStr f1. FetchSites_select lib sys startUrl (first, c, w) = (urlStr, False, f1, w'))"
proof -
  obtain urlStr found f1 w0 where
    sel: "FetchSites_select lib sys startUrl (first, c, w) = (urlStr, found, f1, w0)"
    by (metis prod.exhaust)
  show ?thesis
  proof (cases found)
    case False
    then show ?thesis using assms sel by (simp del: FetchSites_select.simps)
  next
    case True
    obtain url e where hk: "(case BeforeCrawlFn c of Some f \<Rightarrow> f urlStr | None \<Rightarrow> (urlStr, None)) = (url, e)"
      by (metis prod.exhaust)
    have False
    proof (cases e)
      case (Some err)
      then show False using assms sel True hk by (simp del: FetchSites_select.simps)
    next
      case None
      then show False using assms sel True hk
        by (auto simp del: FetchSites_select.simps simp: Let_def dest!: FetchSites_fetch_Break
              split: sum.splits if_splits)
    qed
    then show ?thesis ..
  qed
qed

lemma card_unvisited_decreases:
  assumes "finite V" "urlStr \<in> V" "L urlStr = Some False"
    and "\<forall>u. L2 u = Some True \<longleftrightarrow> u = urlStr \<or> L u = Some True"
  shows "card (V - {u. L2 u = Some True}) < card (V - {u. L u = Some True})"
proof -
  have "{u. L2 u = Some True} = insert urlStr {u. L u = Some True}"
    using assms(4) by blast
  moreover have "urlStr \<notin> {u. L u = Some True}" using assms(3) by simp
  ultimately have "V - {u. L2 u = Some True} \<subset> V - {u. L u = Some True}"
    using assms(2) by blast
  then show ?thesis
    using assms(1) by (intro psubset_card_mono) simp_all
qed


lemma FetchSites_turn_step:
  assumes hook: "\<And>f u. BeforeCrawlFn cw = Some f \<Longrightarrow> snd (f u) \<noteq> None \<or> fst (f u) = u"
    and links: "\<And>L n u w page err w'. u \<in> V \<Longrightarrow>
                  GetPage lib sys (cw\<lparr>Links := L, PageCount := n\<rparr>) u ''GET'' w
                    = Some ((Some page, err), w') \<Longrightarrow>
                  set (case AfterCrawlFn cw of
                         Some g \<Rightarrow> fst (g page err)
                       | None \<Rightarrow> Hrefs (RespInfo page)) \<subseteq> V"
    and c: "c = cw\<lparr>Links := L, PageCount := n\<rparr>"
    and dom: "dom L \<subseteq> V"
    and first: "first \<Longrightarrow> \<exists>u. startUrl = Some u \<and> L (URL_String lib u) = Some False"
    and turn: "FetchSites_turn lib sys startUrl (first, c, w) = Continue (f2, c2, w2)"
  shows "\<exists>urlStr L2 n2. \<not> f2 \<and> c2 = cw\<lparr>Links := L2, PageCount := n2\<rparr> \<and> dom L2 \<subseteq> V
           \<and> urlStr \<in> V \<and> L urlStr = Some False
           \<and> (\<forall>u. L2 u = Some True \<longleftrightarrow> u = urlStr \<or> L u = Some True)"
proof -
  have Lc: "Links c = L" and Bc: "BeforeCrawlFn c = BeforeCrawlFn cw"
    and Ac: "AfterCrawlFn c = AfterCrawlFn cw"
    using c by simp_all
  have hook': "\<And>f u. BeforeCrawlFn c = Some f \<Longrightarrow> snd (f u) \<noteq> None \<or> fst (f u) = u"
    unfolding Bc by (rule hook)
  have first': "first \<Longrightarrow> \<exists>u. startUrl = Some u \<and> Links c (URL_String lib u) = Some False"
    unfolding Lc by (rule first)
  let ?P = "\<lambda>urlStr L2 n2. Links c urlStr = Some False \<and> \<not> f2
           \<and> c2 = c\<lparr>Links := L2, PageCount := n2\<rparr>
           \<and> (\<forall>u. L2 u = Some True \<longleftrightarrow> u = urlStr \<or> Links c u = Some True)
           \<and> (L2 = (Links c)(urlStr \<mapsto> True)
               \<or> (\<exists>page err w0 w1.
                     GetPage lib sys (c\<lparr>Links := (Links c)(urlStr \<mapsto> True)\<rparr>) urlStr ''GET'' w0
                       = Some ((Some page, err), w1)
                     \<and> dom L2 \<subseteq> dom (Links c)
                          \<union> set (case AfterCrawlFn c of
                                   Some g \<Rightarrow> fst (g page err)
                                 | None \<Rightarrow> Hrefs (RespInfo page))))"
  have "\<exists>urlStr L2 n2. ?P urlStr L2 n2"
  proof (rule FetchSites_turn_Continue [where first = first and w = w, OF turn])
    show "\<And>f u. BeforeCrawlFn c = Some f \<Longrightarrow> snd (f u) \<noteq> None \<or> fst (f u) = u"
      by (rule hook')
    show "first \<Longrightarrow> \<exists>u. startUrl = Some u \<and> Links c (URL_String lib u) = Some False"
      by (rule first')
  qed
  then obtain urlStr where "\<exists>L2 n2. ?P urlStr L2 n2" ..
  then obtain L2 where "\<exists>n2. ?P urlStr L2 n2" ..
  then obtain n2 where P: "?P urlStr L2 n2" ..
  from P have unv: "L urlStr = Some False" unfolding Lc by (rule conjunct1)
  from P have f2: "\<not> f2" by (rule conjunct1 [OF conjunct2])
  from P have c2: "c2 = c\<lparr>Links := L2, PageCount := n2\<rparr>"
    by (rule conjunct1 [OF conjunct2 [OF conjunct2]])
  from P have L2t: "\<forall>u. L2 u = Some True \<longleftrightarrow> u = urlStr \<or> L u = Some True"
    unfolding Lc by (rule conjunct1 [OF conjunct2 [OF conjunct2 [OF conjunct2]]])
  from P have L2d: "L2 = L(urlStr \<mapsto> True)
               \<or> (\<exists>page err w0 w1.
                     GetPage lib sys (c\<lparr>Links := L(urlStr \<mapsto> True)\<rparr>) urlStr ''GET'' w0
                       = Some ((Some page, err), w1)
                     \<and> dom L2 \<subseteq> dom L
                          \<union> set (case AfterCrawlFn cw of
                                   Some g \<Rightarrow> fst (g page err)
                                 | None \<Rightarrow> Hrefs (RespInfo page)))"
    unfolding Lc Ac by (rule conjunct2 [OF conjunct2 [OF conjunct2 [OF conjunct2]]])
  have "urlStr \<in> dom L" using unv by (rule domI)
  then have uV: "urlStr \<in> V" using dom by (rule subsetD [rotated])
  have c2': "c2 = cw\<lparr>Links := L2, PageCount := n2\<rparr>"
    unfolding c2 c by simp
  have c1: "c\<lparr>Links := L(urlStr \<mapsto> True)\<rparr> = cw\<lparr>Links := L(urlStr \<mapsto> True), PageCount := n\<rparr>"
    unfolding c by simp
  have domL2: "dom L2 \<subseteq> V"
    using L2d
  proof (elim disjE exE conjE)
    assume "L2 = L(urlStr \<mapsto> True)"
    then have "dom L2 = insert urlStr (dom L)" by simp
    then show ?thesis using uV dom by simp
  next
    fix page err w0 w1
    assume gp: "GetPage lib sys (c\<lparr>Links := L(urlStr \<mapsto> True)\<rparr>) urlStr ''GET'' w0
                       = Some ((Some page, err), w1)"
      and d: "dom L2 \<subseteq> dom L
                          \<union> set (case AfterCrawlFn cw of
                                   Some g \<Rightarrow> fst (g page err)
                                 | None \<Rightarrow> Hrefs (RespInfo page))"
    have "set (case AfterCrawlFn cw of
                         Some g \<Rightarrow> fst (g page err)
                       | None \<Rightarrow> Hrefs (RespInfo page)) \<subseteq> V"
      by (rule links [OF uV gp [unfolded c1]])
    with dom have "dom L \<union> set (case AfterCrawlFn cw of
                         Some g \<Rightarrow> fst (g page err)
                       | None \<Rightarrow> Hrefs (RespInfo page)) \<subseteq> V"
      by (rule Un_least)
    with d show ?thesis by (rule subset_trans)
  qed
  show ?thesis
    by (intro exI [of _ urlStr] exI [of _ L2] exI [of _ n2] conjI f2 c2' domL2 uV unv L2t)
qed

lemma FetchSites_loop_terminates:
  assumes fin: "finite V"
    and order: "\<And>m w. dom m \<subseteq> V \<Longrightarrow> set (fst (range_order sys m w)) = dom m"
    and hook: "\<And>f u. BeforeCrawlFn cw = Some f \<Longrightarrow> snd (f u) \<noteq> None \<or> fst (f u) = u"
    and links: "\<And>L n u w page err w'. u \<in> V \<Longrightarrow>
                  GetPage lib sys (cw\<lparr>Links := L, PageCount := n\<rparr>) u ''GET'' w
                    = Some ((Some page, err), w') \<Longrightarrow>
                  set (case AfterCrawlFn cw of
                         Some g \<Rightarrow> fst (g page err)
                       | None \<Rightarrow> Hrefs (RespInfo page)) \<subseteq> V"
  shows "c = cw\<lparr>Links := L, PageCount := n\<rparr> \<Longrightarrow> dom L \<subseteq> V \<Longrightarrow>
         (first \<Longrightarrow> \<exists>u. startUrl = Some u \<and> L (URL_String lib u) = Some False) \<Longrightarrow>
         \<exists>r. FetchSites_loop lib sys startUrl (first, c, w) = Some r
           \<and> (\<forall>c' w'. r = Returns (None, c', w') \<longrightarrow> (\<forall>u. Links c' u \<noteq> Some False))"
proof (induction "card (V - {u. L u = Some True})" arbitrary: first c w L n rule: less_induct)
  case less
  have Lc: "Links c = L" unfolding less.prems(1) by simp
  show ?case
  proof (cases "FetchSites_turn lib sys startUrl (first, c, w)")
    case (Break r)
    have nil: "\<forall>u. Links c' u \<noteq> Some False" if r: "r = Returns (None, c', w')" for c' w'
    proof -
      have b: "FetchSites_turn lib sys startUrl (first, c, w) = Break (Returns (None, c', w'))"
        unfolding Break r ..
      from FetchSites_turn_Break_nil [OF b] have c': "c' = c"
        and "\<exists>urlStr f1. FetchSites_select lib sys startUrl (first, c, w) = (urlStr, False, f1, w')"
        by (rule conjunct1, rule conjunct2)
      then obtain urlStr f1 where
        sel: "FetchSites_select lib sys startUrl (first, c, w) = (urlStr, False, f1, w')"
        by (elim exE)
      have "set (fst (range_order sys (Links c) w)) = dom (Links c)"
        unfolding Lc using less.prems(2) by (rule order)
      then have o: "dom (Links c) \<subseteq> set (fst (range_order sys (Links c) w))" by simp
      have f: "first \<Longrightarrow> startUrl \<noteq> None"
      proof -
        assume first
        then have "\<exists>u. startUrl = Some u \<and> L (URL_String lib u) = Some False"
          by (rule less.prems(3))
        then obtain u where "startUrl = Some u \<and> L (URL_String lib u) = Some False" ..
        then have "startUrl = Some u" ..
        then show "startUrl \<noteq> None" by simp
      qed
      show ?thesis
        unfolding c' by (rule allI, rule FetchSites_select_not_found [OF sel o f])
    qed
    have res: "FetchSites_loop lib sys startUrl (first, c, w) = Some r"
      by (subst FetchSites_loop.simps) (simp only: Break turn.case)
    have "\<forall>c' w'. r = Returns (None, c', w') \<longrightarrow> (\<forall>u. Links c' u \<noteq> Some False)"
      by (intro allI impI) (rule nil [rule_format])
    with res show ?thesis by (intro exI [of _ r] conjI)
  next
    case (Continue s')
    obtain f2 c2 w2 where s': "s' = (f2, c2, w2)" by (rule prod_cases3)
    have tc: "FetchSites_turn lib sys startUrl (first, c, w) = Continue (f2, c2, w2)"
      unfolding Continue s' ..
    let ?Q = "\<lambda>urlStr L2 n2. \<not> f2 \<and> c2 = cw\<lparr>Links := L2, PageCount := n2\<rparr> \<and> dom L2 \<subseteq> V
           \<and> urlStr \<in> V \<and> L urlStr = Some False
           \<and> (\<forall>u. L2 u = Some True \<longleftrightarrow> u = urlStr \<or> L u = Some True)"
    have "\<exists>urlStr L2 n2. ?Q urlStr L2 n2"
    proof (rule FetchSites_turn_step
             [where cw = cw and V = V and lib = lib and sys = sys and c = c and L = L
                and n = n and first = first and startUrl = startUrl and w = w
                and ?f2.0 = f2 and ?c2.0 = c2 and ?w2.0 = w2])
      show "\<And>f u. BeforeCrawlFn cw = Some f \<Longrightarrow> snd (f u) \<noteq> None \<or> fst (f u) = u"
        by (rule hook)
      show "\<And>L n u w page err w'. u \<in> V \<Longrightarrow>
                  GetPage lib sys (cw\<lparr>Links := L, PageCount := n\<rparr>) u ''GET'' w
                    = Some ((Some page, err), w') \<Longrightarrow>
                  set (case AfterCrawlFn cw of
                         Some g \<Rightarrow> fst (g page err)
                       | None \<Rightarrow> Hrefs (RespInfo page)) \<subseteq> V"
        by (rule links)
      show "c = cw\<lparr>Links := L, PageCount := n\<rparr>" by (rule less.prems(1))
      show "dom L \<subseteq> V" by (rule less.prems(2))
      show "first \<Longrightarrow> \<exists>u. startUrl = Some u \<and> L (URL_String lib u) = Some False"
        by (rule less.prems(3))
      show "FetchSites_turn lib sys startUrl (first, c, w) = Continue (f2, c2, w2)"
        by (rule tc)
    qed
    then obtain urlStr where "\<exists>L2 n2. ?Q urlStr L2 n2" ..
    then obtain L2 where "\<exists>n2. ?Q urlStr L2 n2" ..
    then obtain n2 where Q: "?Q urlStr L2 n2" ..
    from Q have f2: "\<not> f2" by (rule conjunct1)
    from Q have c2: "c2 = cw\<lparr>Links := L2, PageCount := n2\<rparr>"
      by (rule conjunct1 [OF conjunct2])
    from Q have d2: "dom L2 \<subseteq> V" by (rule conjunct1 [OF conjunct2 [OF conjunct2]])
    from Q have uV: "urlStr \<in> V" by (rule conjunct1 [OF conjunct2 [OF conjunct2 [OF conjunct2]]])
    from Q have unv: "L urlStr = Some False"
      by (rule conjunct1 [OF conjunct2 [OF conjunct2 [OF conjunct2 [OF conjunct2]]]])
    from Q have L2t: "\<forall>u. L2 u = Some True \<longleftrightarrow> u = urlStr \<or> L u = Some True"
      by (rule conjunct2 [OF conjunct2 [OF conjunct2 [OF conjunct2 [OF conjunct2]]]])
    have decr: "card (V - {u. L2 u = Some True}) < card (V - {u. L u = Some True})"
      using fin uV unv L2t by (rule card_unvisited_decreases)
    have f2': "f2 \<Longrightarrow> \<exists>u. startUrl = Some u \<and> L2 (URL_String lib u) = Some False"
      using f2 by simp
    have "\<exists>r. FetchSites_loop lib sys startUrl (f2, c2, w2) = Some r
           \<and> (\<forall>c' w'. r = Returns (None, c', w') \<longrightarrow> (\<forall>u. Links c' u \<noteq> Some False))"
      using decr c2 d2 f2' by (rule less.hyps)
    moreover have "FetchSites_loop lib sys startUrl (first, c, w)
                     = FetchSites_loop lib sys startUrl (f2, c2, w2)"
      by (subst FetchSites_loop.simps) (simp only: tc turn.case)
    ultimately show ?thesis by (simp only:)
  qed
qed

lemma blocked_redirect_GetPage:
  assumes "u = ''http://ex.com/old'' \<or> u = ''http://ex.com/new''"
    and "GetPage (example_lib []) (example_sys blocked_redirect U)
           (NewCrawler\<lparr>StorageFolder := [], Links := L, PageCount := n\<rparr>) u ''GET'' w
           = Some ((Some page, err), w')"
  shows "Hrefs (RespInfo page) = [''http://ex.com/new'']"
  using assms
  by (auto simp: GetPage_def example_NewRequest example_Parse_def example_URLs_def
        NewCrawler_def Header_Set_def example_sys_sel blocked_redirect_def
        PageFromResponse_def PageFromResponse_res_def LocationFromPage_def Page_zero_def
        PageResponse_zero_def PageRequest_zero_def ResponseInfo_zero_def ToAbsUrl_def
        Header_Get_def example_lib_sel example_Resolve_def example_String_def mkURL_def
        Let_def)


text \<open>
  C8, amended. Let \<open>V\<close> be a finite set of URLs that holds the initial frontier, the seed
  and every link a fetch of a URL of \<open>V\<close> can put up for expansion, let a range over
  the frontier visit every key, and let the pre-fetch hook, if there is one, fail or
  return the URL it was given. Then \<open>FetchSites\<close> terminates: every turn marks the URL it
  selected, which was unvisited, as visited, the expansion adds only keys of \<open>V\<close> and
  changes no flag, so the unvisited entries run out. When it returns without error, no
  unvisited entry is left in the frontier.
\<close>

theorem FetchSites_terminates_when_hook_keeps_url:
  assumes fin: "finite V"
    and dom: "dom (Links cw) \<subseteq> V"
    and seed: "\<forall>u. startUrl = Some u \<longrightarrow> URL_String lib u \<in> V"
    and order: "\<forall>m w. dom m \<subseteq> V \<longrightarrow> set (fst (range_order sys m w)) = dom m"
    and hook: "\<forall>f u. BeforeCrawlFn cw = Some f \<longrightarrow> snd (f u) \<noteq> None \<or> fst (f u) = u"
    and links: "\<forall>L n u w page err w'.
                  u \<in> V \<and> GetPage lib sys (cw\<lparr>Links := L, PageCount := n\<rparr>) u ''GET'' w
                              = Some ((Some page, err), w') \<longrightarrow>
                  set (case AfterCrawlFn cw of
                         Some g \<Rightarrow> fst (g page err)
                       | None \<Rightarrow> Hrefs (RespInfo page)) \<subseteq> V"
  shows "\<exists>r. FetchSites lib sys startUrl cw w = Some r
           \<and> (\<forall>cw' w'. r = Returns (None, cw', w') \<longrightarrow> (\<forall>u. Links cw' u \<noteq> Some False))"
proof -
  have order': "\<And>m w. dom m \<subseteq> V \<Longrightarrow> set (fst (range_order sys m w)) = dom m"
    using order by simp
  have hook': "\<And>f u. BeforeCrawlFn cw = Some f \<Longrightarrow> snd (f u) \<noteq> None \<or> fst (f u) = u"
    using hook by simp
  have links': "\<And>L n u w page err w'. u \<in> V \<Longrightarrow>
                  GetPage lib sys (cw\<lparr>Links := L, PageCount := n\<rparr>) u ''GET'' w
                    = Some ((Some page, err), w') \<Longrightarrow>
                  set (case AfterCrawlFn cw of
                         Some g \<Rightarrow> fst (g page err)
                       | None \<Rightarrow> Hrefs (RespInfo page)) \<subseteq> V"
  proof -
    fix L n u w page err w'
    assume "u \<in> V" and "GetPage lib sys (cw\<lparr>Links := L, PageCount := n\<rparr>) u ''GET'' w
                    = Some ((Some page, err), w')"
    then have both: "u \<in> V \<and> GetPage lib sys (cw\<lparr>Links := L, PageCount := n\<rparr>) u ''GET'' w
                              = Some ((Some page, err), w')" ..
    show "set (case AfterCrawlFn cw of
                         Some g \<Rightarrow> fst (g page err)
                       | None \<Rightarrow> Hrefs (RespInfo page)) \<subseteq> V"
      by (rule links [rule_format, OF both])
  qed
  have loop: "\<exists>r. FetchSites_loop lib sys startUrl (first, c, w) = Some r
           \<and> (\<forall>c' w'. r = Returns (None, c', w') \<longrightarrow> (\<forall>u. Links c' u \<noteq> Some False))"
    if "c = cw\<lparr>Links := L, PageCount := n\<rparr>" "dom L \<subseteq> V"
      "first \<Longrightarrow> \<exists>u. startUrl = Some u \<and> L (URL_String lib u) = Some False"
    for first c L n
  proof (rule FetchSites_loop_terminates [where V = V and cw = cw and L = L and n = n])
    show "finite V" by (rule fin)
    show "\<And>m w. dom m \<subseteq> V \<Longrightarrow> set (fst (range_order sys m w)) = dom m" by (rule order')
    show "\<And>f u. BeforeCrawlFn cw = Some f \<Longrightarrow> snd (f u) \<noteq> None \<or> fst (f u) = u"
      by (rule hook')
    show "\<And>L n u w page err w'. u \<in> V \<Longrightarrow>
                  GetPage lib sys (cw\<lparr>Links := L, PageCount := n\<rparr>) u ''GET'' w
                    = Some ((Some page, err), w') \<Longrightarrow>
                  set (case AfterCrawlFn cw of
                         Some g \<Rightarrow> fst (g page err)
                       | None \<Rightarrow> Hrefs (RespInfo page)) \<subseteq> V"
      by (rule links')
    show "c = cw\<lparr>Links := L, PageCount := n\<rparr>" by (rule that(1))
    show "dom L \<subseteq> V" by (rule that(2))
    show "first \<Longrightarrow> \<exists>u. startUrl = Some u \<and> L (URL_String lib u) = Some False"
      by (rule that(3))
  qed
  show ?thesis
  proof (cases startUrl)
    case None
    have "cw = cw\<lparr>Links := Links cw, PageCount := PageCount cw\<rparr>" by simp
    from loop [OF this dom, of False] show ?thesis
      unfolding FetchSites_def None by simp
  next
    case (Some u)
    define s where "s = URL_String lib u"
    define cw0 where "cw0 = AddAllLinks [s] cw"
    have sV: "s \<in> V" using seed Some by (simp add: s_def)
    have c0: "cw0 = cw\<lparr>Links := Links cw0, PageCount := PageCount cw\<rparr>"
      using AddAllLinks_more [of "[s]" cw] by (simp add: cw0_def)
    have d0: "dom (Links cw0) \<subseteq> V"
      unfolding cw0_def dom_AddAllLinks using dom sV by simp
    have f0: "\<exists>v. startUrl = Some v \<and> Links cw0 (URL_String lib v) = Some False"
      if "\<not> IsCrawled cw0 s"
    proof -
      have "s \<in> dom (Links cw0)"
        unfolding cw0_def dom_AddAllLinks by simp
      then have "Links cw0 s \<noteq> None" by (simp add: domIff)
      then obtain b where b: "Links cw0 s = Some b" by blast
      with that have "b = False" by (simp add: IsCrawled_def)
      with b show ?thesis using Some by (simp add: s_def)
    qed
    have "\<exists>r. FetchSites_loop lib sys startUrl (\<not> IsCrawled cw0 s, cw0, w) = Some r
           \<and> (\<forall>c' w'. r = Returns (None, c', w') \<longrightarrow> (\<forall>u. Links c' u \<noteq> Some False))"
      using c0 d0 f0 by (rule loop)
    moreover have "FetchSites lib sys startUrl cw w
                     = FetchSites_loop lib sys startUrl (\<not> IsCrawled cw0 s, cw0, w)"
      unfolding FetchSites_def Some cw0_def s_def by (simp add: Let_def)
    ultimately show ?thesis by (simp only:)
  qed
qed


theorem FetchSites_terminates_when_hook_keeps_url_witness:
  "\<exists>r. FetchSites (example_lib [])
          (example_sys blocked_redirect [''http://ex.com/old'', ''http://ex.com/new''])
          (Some (mkURL ''http'' ''ex.com'' ''/old''))
          (NewCrawler\<lparr>StorageFolder := []\<rparr>) 0 = Some r"
proof -
  let ?V = "{''http://ex.com/old'', ''http://ex.com/new''}"
  let ?sys = "example_sys blocked_redirect [''http://ex.com/old'', ''http://ex.com/new'']"
  let ?cw = "NewCrawler\<lparr>StorageFolder := []\<rparr>"
  have fin: "finite ?V" by simp
  have dom: "dom (Links ?cw) \<subseteq> ?V" by (simp add: NewCrawler_def)
  have seed: "\<forall>u. Some (mkURL ''http'' ''ex.com'' ''/old'') = Some u
                \<longrightarrow> URL_String (example_lib []) u \<in> ?V"
    by (simp add: example_lib_sel example_String_def mkURL_def)
  have order: "\<forall>m w. dom m \<subseteq> ?V \<longrightarrow> set (fst (range_order ?sys m w)) = dom m"
    by (auto simp: example_sys_sel)
  have hook: "\<forall>f u. BeforeCrawlFn ?cw = Some f \<longrightarrow> snd (f u) \<noteq> None \<or> fst (f u) = u"
    by (simp add: NewCrawler_def)
  have links: "\<forall>L n u w page err w'.
                  u \<in> ?V \<and> GetPage (example_lib []) ?sys (?cw\<lparr>Links := L, PageCount := n\<rparr>) u ''GET'' w
                              = Some ((Some page, err), w') \<longrightarrow>
                  set (case AfterCrawlFn ?cw of
                         Some g \<Rightarrow> fst (g page err)
                       | None \<Rightarrow> Hrefs (RespInfo page)) \<subseteq> ?V"
  proof (intro allI impI)
    fix L n u w page err w'
    assume a: "u \<in> ?V \<and> GetPage (example_lib []) ?sys (?cw\<lparr>Links := L, PageCount := n\<rparr>) u ''GET'' w
                              = Some ((Some page, err), w')"
    then have u: "u = ''http://ex.com/old'' \<or> u = ''http://ex.com/new''" by simp
    from a have g: "GetPage (example_lib []) ?sys (?cw\<lparr>Links := L, PageCount := n\<rparr>) u ''GET'' w
                              = Some ((Some page, err), w')" ..
    have "Hrefs (RespInfo page) = [''http://ex.com/new'']"
      by (rule blocked_redirect_GetPage [OF u g])
    moreover have "AfterCrawlFn ?cw = None" by (simp add: NewCrawler_def)
    ultimately show "set (case AfterCrawlFn ?cw of
                         Some g \<Rightarrow> fst (g page err)
                       | None \<Rightarrow> Hrefs (RespInfo page)) \<subseteq> ?V"
      by simp
  qed
  from FetchSites_terminates_when_hook_keeps_url [OF fin dom seed order hook links, of 0]
  obtain r where "FetchSites (example_lib []) ?sys (Some (mkURL ''http'' ''ex.com'' ''/old''))
                    ?cw 0 = Some r
           \<and> (\<forall>cw' w'. r = Returns (None, cw', w') \<longrightarrow> (\<forall>u. Links cw' u \<noteq> Some False))" ..
  then have "FetchSites (example_lib []) ?sys (Some (mkURL ''http'' ''ex.com'' ''/old''))
                    ?cw 0 = Some r" ..
  then show ?thesis ..
qed

end
